theory Spec2Isabelle
  imports Main "HOL-Library.AList"
begin

section \<open>Python values, exceptions and the standard library\<close>

text \<open>
  The code works on untyped JSON-like data, so values are one datatype. A dictionary is an
  association list in insertion order; \<open>AList.update\<close> is Python's item assignment
  (an existing key keeps its place and gets the new value, a new key goes last).
  A \<open>datetime\<close> is its wall-clock reading in microseconds since 0001-01-01T00:00:00
  and, when it is aware, its \<open>tzinfo\<close> object with the UTC offset, in microseconds, that
  the object gives for it. A \<open>tzinfo\<close> is a fixed-offset \<open>datetime.timezone\<close> or a
  \<open>ZoneInfo\<close>; the constructor of \<open>ZoneInfo\<close> keeps one object per key, so the key
  stands for the object. A \<open>date\<close> is its proleptic Gregorian ordinal. Numbers are
  integers.
\<close>

datatype error =
  KeyError | IndexError | TypeError | ValueError | OverflowError | NameError | AttributeError
  | AssertionError | IntegrityError | InvalidProperty

datatype tzinfo = Timezone | ZoneInfo string

datatype datetime = DateTime (wall: int) (aware: "(tzinfo \<times> int) option")

definition utcoffset :: "datetime \<Rightarrow> int option" where
  "utcoffset t = map_option snd (aware t)"

datatype pyval =
  PNone | PBool bool | PInt int | PStr string | PList "pyval list"
  | PDict "(pyval \<times> pyval) list" | PDate int | PDateTime datetime

type_synonym pydict = "(pyval \<times> pyval) list"

text \<open>
  What the code takes from Python's library and from its configuration: the two
  \<open>strptime\<close> formats of \<open>_str_to_datetime\<close> (\<open>None\<close> is the library's
  \<open>ValueError\<close>; the first format carries \<open>%z\<close>, so its result is a wall-clock
  reading and an offset), the two \<open>strftime\<close> formats of \<open>DateProperty\<close>, the key
  of \<open>local_timezone\<close> and its offset at a UTC instant, whether the offset a zone gives
  for a wall-clock reading depends on \<open>fold\<close> (the reading is repeated or skipped at a
  change of offset), the text \<open>str()\<close> gives for a list, a dictionary, a date or a
  datetime, and the module switch \<open>enable_link\<close>.
\<close>

record pylib =
  strptime_datetime :: "string \<Rightarrow> (int \<times> int) option"
  strptime_date :: "string \<Rightarrow> int option"
  strftime_datetime :: "datetime \<Rightarrow> string"
  strftime_date :: "int \<Rightarrow> string"
  local_timezone :: string
  local_utcoffset :: "int \<Rightarrow> int"
  ambiguous :: "string \<Rightarrow> int \<Rightarrow> bool"
  str_compound :: "pyval \<Rightarrow> string"
  enable_link :: bool

fun ebind :: "error + 'a \<Rightarrow> ('a \<Rightarrow> error + 'b) \<Rightarrow> error + 'b" where
  "ebind (Inl e) f = Inl e"
| "ebind (Inr x) f = f x"

fun emap :: "('a \<Rightarrow> error + 'b) \<Rightarrow> 'a list \<Rightarrow> error + 'b list" where
  "emap f [] = Inr []"
| "emap f (x # xs) = ebind (f x) (\<lambda>y. ebind (emap f xs) (\<lambda>ys. Inr (y # ys)))"

fun truthy :: "pyval \<Rightarrow> bool" where
  "truthy PNone = False"
| "truthy (PBool b) = b"
| "truthy (PInt i) = (i \<noteq> 0)"
| "truthy (PStr s) = (s \<noteq> [])"
| "truthy (PList xs) = (xs \<noteq> [])"
| "truthy (PDict d) = (d \<noteq> [])"
| "truthy (PDate d) = True"
| "truthy (PDateTime t) = True"

fun starts_with :: "string \<Rightarrow> string \<Rightarrow> bool" where
  "starts_with [] s = True"
| "starts_with (k # ks) [] = False"
| "starts_with (k # ks) (c # cs) = (k = c \<and> starts_with ks cs)"

fun substring :: "string \<Rightarrow> string \<Rightarrow> bool" where
  "substring k [] = (k = [])"
| "substring k (c # cs) = (starts_with k (c # cs) \<or> substring k cs)"

text \<open>\<open>data[key]\<close> with a string key, \<open>key in data\<close>, \<open>data.get(key)\<close>, \<open>value[0]\<close>
  and \<open>for x in value\<close>.\<close>

fun py_item :: "pyval \<Rightarrow> string \<Rightarrow> error + pyval" where
  "py_item (PDict d) k = (case map_of d (PStr k) of None \<Rightarrow> Inl KeyError | Some v \<Rightarrow> Inr v)"
| "py_item v k = Inl TypeError"

fun py_in :: "string \<Rightarrow> pyval \<Rightarrow> error + bool" where
  "py_in k (PDict d) = Inr (PStr k \<in> fst ` set d)"
| "py_in k (PList xs) = Inr (PStr k \<in> set xs)"
| "py_in k (PStr s) = Inr (substring k s)"
| "py_in k v = Inl TypeError"

fun py_get :: "pyval \<Rightarrow> string \<Rightarrow> error + pyval" where
  "py_get (PDict d) k = (case map_of d (PStr k) of None \<Rightarrow> Inr PNone | Some v \<Rightarrow> Inr v)"
| "py_get v k = Inl AttributeError"

fun py_first :: "pyval \<Rightarrow> error + pyval" where
  "py_first (PList xs) = (case xs of [] \<Rightarrow> Inl IndexError | x # _ \<Rightarrow> Inr x)"
| "py_first (PStr s) = (case s of [] \<Rightarrow> Inl IndexError | c # _ \<Rightarrow> Inr (PStr [c]))"
| "py_first (PDict d) = (case map_of d (PInt 0) of None \<Rightarrow> Inl KeyError | Some v \<Rightarrow> Inr v)"
| "py_first v = Inl TypeError"

fun py_iter :: "pyval \<Rightarrow> error + pyval list" where
  "py_iter (PList xs) = Inr xs"
| "py_iter (PStr s) = Inr (map (\<lambda>c. PStr [c]) s)"
| "py_iter (PDict d) = Inr (map fst d)"
| "py_iter v = Inl TypeError"

text \<open>\<open>str(x)\<close>, which is also what an f-string writes for \<open>{x}\<close>.\<close>

fun nat_digits :: "nat \<Rightarrow> string" where
  "nat_digits n =
     (if n < 10 then [''0123456789'' ! n]
      else nat_digits (n div 10) @ [''0123456789'' ! (n mod 10)])"

definition int_str :: "int \<Rightarrow> string" where
  "int_str i = (if i < 0 then CHR ''-'' # nat_digits (nat (- i)) else nat_digits (nat i))"

fun py_str :: "pylib \<Rightarrow> pyval \<Rightarrow> string" where
  "py_str L (PStr s) = s"
| "py_str L PNone = ''None''"
| "py_str L (PBool b) = (if b then ''True'' else ''False'')"
| "py_str L (PInt i) = int_str i"
| "py_str L v = str_compound L v"

text \<open>\<open>output += x\<close> on a string \<open>output\<close>: only a string can be appended.\<close>

fun str_add :: "string \<Rightarrow> pyval \<Rightarrow> error + string" where
  "str_add out (PStr s) = Inr (out @ s)"
| "str_add out v = Inl TypeError"

section \<open>Scalar codec (__init__.py)\<close>

text \<open>\<open>_str_to_datetime\<close>. \<open>astimezone(local_timezone)\<close> moves the value to UTC and
  from there to the local zone, keeping the instant; a datetime lies between
  0001-01-01T00:00:00 and 9999-12-31T23:59:59.999999, and either step raises
  \<open>OverflowError\<close> when it leaves that range. \<open>strptime\<close> refuses an argument that is
  not a string with a \<open>TypeError\<close>. Neither error is caught by \<open>except ValueError\<close>.\<close>

definition in_range :: "int \<Rightarrow> bool" where
  "in_range w = (0 \<le> w \<and> w < 315537897600000000)"

definition astimezone :: "pylib \<Rightarrow> int \<times> int \<Rightarrow> error + datetime" where
  "astimezone L p =
     (let instant = fst p - snd p; off = local_utcoffset L instant
      in if in_range instant \<and> in_range (instant + off)
         then Inr (DateTime (instant + off) (Some (ZoneInfo (local_timezone L), off)))
         else Inl OverflowError)"

fun str_to_datetime :: "pylib \<Rightarrow> pyval \<Rightarrow> error + pyval" where
  "str_to_datetime L (PStr s) =
     (case strptime_datetime L s of
        Some p \<Rightarrow> ebind (astimezone L p) (\<lambda>t. Inr (PDateTime t))
      | None \<Rightarrow>
          (case strptime_date L s of
             Some d \<Rightarrow> Inr (PDate d)
           | None \<Rightarrow> Inl ValueError))"
| "str_to_datetime L v = Inl TypeError"

definition has_key :: "pydict \<Rightarrow> string \<Rightarrow> bool" where
  "has_key d k = (map_of d (PStr k) \<noteq> None)"

text \<open>The branches of \<open>_convert_data\<close> that do not call it again.\<close>

definition convert_date :: "pylib \<Rightarrow> pyval \<Rightarrow> error + pyval" where
  "convert_date L data =
     ebind (py_item data ''date'') (\<lambda>date.
       if truthy date then
         ebind (py_item date ''start'') (\<lambda>s.
         ebind (str_to_datetime L s) (\<lambda>start.
         ebind (py_item date ''end'') (\<lambda>e.
           if truthy e then
             ebind (py_item date ''end'') (\<lambda>e'.
             ebind (str_to_datetime L e') (\<lambda>end. Inr (PList [start, end])))
           else Inr (PList [start]))))
       else Inr PNone)"

definition convert_file :: "pyval \<Rightarrow> string \<Rightarrow> error + pyval" where
  "convert_file data key =
     ebind (py_get data ''name'') (\<lambda>name.
     ebind (py_item data key) (\<lambda>file.
     ebind (py_item file ''url'') (\<lambda>url.
       Inr (PDict ((if truthy name then [(PStr ''name'', name)] else []) @ [(PStr ''url'', url)])))))"

definition convert_names :: "pyval \<Rightarrow> string \<Rightarrow> string \<Rightarrow> error + pyval" where
  "convert_names data key field =
     ebind (py_item data key) (\<lambda>v.
     ebind (py_iter v) (\<lambda>xs.
     ebind (emap (\<lambda>x. py_item x field) xs) (\<lambda>out. Inr (PList out))))"

fun rich_text_loop :: "pylib \<Rightarrow> pyval list \<Rightarrow> string \<Rightarrow> error + string" where
  "rich_text_loop L [] out = Inr out"
| "rich_text_loop L (chunk # rest) out =
     ebind (py_get chunk ''href'') (\<lambda>url.
       if truthy url \<and> enable_link L then
         ebind (py_item chunk ''plain_text'') (\<lambda>t.
           rich_text_loop L rest (out @ ''['' @ py_str L t @ '']('' @ py_str L url @ '')''))
       else
         ebind (py_item chunk ''plain_text'') (\<lambda>t.
         ebind (str_add out t) (\<lambda>out'. rich_text_loop L rest out')))"

fun plain_text_loop :: "pyval list \<Rightarrow> string \<Rightarrow> error + string" where
  "plain_text_loop [] out = Inr out"
| "plain_text_loop (chunk # rest) out =
     ebind (py_item chunk ''plain_text'') (\<lambda>t.
     ebind (str_add out t) (\<lambda>out'. plain_text_loop rest out'))"

definition convert_rich_text :: "pylib \<Rightarrow> pyval \<Rightarrow> error + pyval" where
  "convert_rich_text L data =
     ebind (py_item data ''rich_text'') (\<lambda>v.
     ebind (py_iter v) (\<lambda>chunks.
     ebind (rich_text_loop L chunks []) (\<lambda>out. Inr (PStr out))))"

definition convert_title :: "pyval \<Rightarrow> error + pyval" where
  "convert_title data =
     ebind (py_item data ''title'') (\<lambda>v.
     ebind (py_iter v) (\<lambda>chunks.
     ebind (plain_text_loop chunks []) (\<lambda>out. Inr (PStr out))))"

definition convert_select :: "pyval \<Rightarrow> string \<Rightarrow> error + pyval" where
  "convert_select data key =
     ebind (py_item data key) (\<lambda>select.
       if truthy select then py_item select ''name'' else Inr PNone)"

definition convert_unique_id :: "pylib \<Rightarrow> pyval \<Rightarrow> error + pyval" where
  "convert_unique_id L data =
     ebind (py_item data ''unique_id'') (\<lambda>unique_id.
     ebind (py_item unique_id ''prefix'') (\<lambda>p.
       if truthy p then
         ebind (py_item unique_id ''prefix'') (\<lambda>prefix.
         ebind (py_item unique_id ''number'') (\<lambda>number.
           Inr (PStr (py_str L prefix @ ''-'' @ py_str L number))))
       else
         ebind (py_item unique_id ''number'') (\<lambda>number. Inr (PStr (py_str L number)))))"

text \<open>The keys \<open>_convert_data\<close> probes, in its order. On a list or a string the
  \<open>in\<close> tests are membership and substring tests, and the branch taken then fails:
  at \<open>data.get\<close> for a file, at the subscript otherwise.\<close>

definition convert_keys :: "string list" where
  "convert_keys =
     [''checkbox'', ''created_time'', ''date'', ''email'', ''files'', ''file'', ''external'',
      ''formula'', ''last_edited_time'', ''multi_select'', ''number'', ''phone_number'',
      ''relation'', ''rollup'', ''rich_text'', ''select'', ''status'', ''title'', ''url'',
      ''unique_id'']"

definition convert_nondict :: "(string \<Rightarrow> bool) \<Rightarrow> error + pyval" where
  "convert_nondict isin =
     (case find isin convert_keys of
        None \<Rightarrow> Inr PNone
      | Some k \<Rightarrow> if k = ''file'' \<or> k = ''external'' then Inl AttributeError else Inl TypeError)"

lemma ebind_cong [fundef_cong]:
  "m = m' \<Longrightarrow> (\<And>x. m' = Inr x \<Longrightarrow> f x = g x) \<Longrightarrow> ebind m f = ebind m' g"
  by (cases m') auto

lemma emap_cong [fundef_cong]:
  "xs = ys \<Longrightarrow> (\<And>x. x \<in> set ys \<Longrightarrow> f x = g x) \<Longrightarrow> emap f xs = emap g ys"
proof (induction ys arbitrary: xs)
  case Nil
  then show ?case by simp
next
  case (Cons y ys)
  then show ?case by (auto intro!: ebind_cong)
qed

lemma size_py_item: "py_item v k = Inr x \<Longrightarrow> size x < size v"
proof (cases v)
  case (PDict d)
  assume "py_item v k = Inr x"
  with PDict have "map_of d (PStr k) = Some x" by (auto split: option.splits)
  then have "(PStr k, x) \<in> set d" by (rule map_of_SomeD)
  then have "size x < Suc (size_list (size_prod size size) d)"
    by (induction d) auto
  with PDict show ?thesis by simp
qed auto

lemma size_py_iter: "py_iter v = Inr xs \<Longrightarrow> x \<in> set xs \<Longrightarrow> size x \<le> size v"
proof (cases v)
  case (PList ys)
  assume "py_iter v = Inr xs" "x \<in> set xs"
  with PList have "x \<in> set ys" by simp
  then have "size x \<le> size_list size ys" by (induction ys) auto
  with PList show ?thesis by simp
next
  case (PDict d)
  assume "py_iter v = Inr xs" "x \<in> set xs"
  with PDict have "x \<in> fst ` set d" by auto
  then obtain y where "(x, y) \<in> set d" by auto
  then have "size x \<le> size_list (size_prod size size) d" by (induction d) auto
  with PDict show ?thesis by simp
qed auto

function convert_data :: "pylib \<Rightarrow> pyval \<Rightarrow> error + pyval" where
  "convert_data L data =
     (case data of
        PDict d \<Rightarrow>
          if has_key d ''checkbox'' then py_item data ''checkbox''
          else if has_key d ''created_time'' then
            ebind (py_item data ''created_time'') (str_to_datetime L)
          else if has_key d ''date'' then convert_date L data
          else if has_key d ''email'' then py_item data ''email''
          else if has_key d ''files'' then
            ebind (py_item data ''files'') (\<lambda>files.
            ebind (py_iter files) (\<lambda>fs.
            ebind (emap (convert_data L) fs) (\<lambda>out. Inr (PList out))))
          else if has_key d ''file'' then convert_file data ''file''
          else if has_key d ''external'' then convert_file data ''external''
          else if has_key d ''formula'' then
            ebind (py_item data ''formula'') (\<lambda>formula. convert_data L formula)
          else if has_key d ''last_edited_time'' then
            ebind (py_item data ''last_edited_time'') (str_to_datetime L)
          else if has_key d ''multi_select'' then convert_names data ''multi_select'' ''name''
          else if has_key d ''number'' then py_item data ''number''
          else if has_key d ''phone_number'' then py_item data ''phone_number''
          else if has_key d ''relation'' then convert_names data ''relation'' ''id''
          else if has_key d ''rollup'' then
            ebind (py_item data ''rollup'') (\<lambda>rollup. convert_data L rollup)
          else if has_key d ''rich_text'' then convert_rich_text L data
          else if has_key d ''select'' then convert_select data ''select''
          else if has_key d ''status'' then convert_select data ''status''
          else if has_key d ''title'' then convert_title data
          else if has_key d ''url'' then py_item data ''url''
          else if has_key d ''unique_id'' then convert_unique_id L data
          else Inr PNone
      | PList xs \<Rightarrow> convert_nondict (\<lambda>k. PStr k \<in> set xs)
      | PStr s \<Rightarrow> convert_nondict (\<lambda>k. substring k s)
      | _ \<Rightarrow> Inl TypeError)"
  by pat_completeness auto
termination
proof (relation "measure (\<lambda>(L, data). size data)")
  show "wf (measure (\<lambda>(L, data). size data))" by simp
next
  fix L :: pylib and data d files fs x
  assume "data = PDict d" "py_item data ''files'' = Inr files" "py_iter files = Inr fs"
    "x \<in> set fs"
  then show "((L, x), (L, data)) \<in> measure (\<lambda>(L, data). size data)"
    using size_py_item [of data "''files''" files] size_py_iter [of files fs x] by simp
next
  fix L :: pylib and data d formula
  assume "py_item data ''formula'' = Inr formula"
  then show "((L, formula), (L, data)) \<in> measure (\<lambda>(L, data). size data)"
    using size_py_item [of data "''formula''" formula] by simp
next
  fix L :: pylib and data d rollup
  assume "py_item data ''rollup'' = Inr rollup"
  then show "((L, rollup), (L, data)) \<in> measure (\<lambda>(L, data). size data)"
    using size_py_item [of data "''rollup''" rollup] by simp
qed

declare convert_data.simps [simp del]

section \<open>A concrete library\<close>

text \<open>
  The library on the literals the code writes and the store sends, for running the
  definitions: dates as \<open>YYYY-MM-DD\<close>, timestamps as \<open>YYYY-MM-DDTHH:MM:SS.f\<close> with one
  to six fraction digits and an offset \<open>Z\<close>, \<open>+HH:MM\<close> or \<open>+HHMM\<close>, every field at its
  full width; the local zone is the code's default, Asia/Shanghai, at its present offset
  of eight hours. Ordinals are those of \<open>date.toordinal\<close>.
\<close>

definition is_leap :: "nat \<Rightarrow> bool" where
  "is_leap y = (y mod 4 = 0 \<and> (y mod 100 \<noteq> 0 \<or> y mod 400 = 0))"

definition days_in_month :: "nat \<Rightarrow> nat \<Rightarrow> nat" where
  "days_in_month y m =
     (if m = 2 then (if is_leap y then 29 else 28)
      else if m = 4 \<or> m = 6 \<or> m = 9 \<or> m = 11 then 30 else 31)"

definition days_before_month :: "nat \<Rightarrow> nat \<Rightarrow> nat" where
  "days_before_month y m =
     [0, 0, 31, 59, 90, 120, 151, 181, 212, 243, 273, 304, 334] ! m
     + (if 2 < m \<and> is_leap y then 1 else 0)"

definition ymd2ord :: "nat \<Rightarrow> nat \<Rightarrow> nat \<Rightarrow> nat" where
  "ymd2ord y m d =
     365 * (y - 1) + (y - 1) div 4 - (y - 1) div 100 + (y - 1) div 400
     + days_before_month y m + d"

definition ord2ymd :: "nat \<Rightarrow> nat \<times> nat \<times> nat" where
  "ord2ymd ordinal =
     (let n = ordinal - 1;
          n400 = n div 146097; n = n mod 146097;
          n100 = n div 36524; n = n mod 36524;
          n4 = n div 1461; n = n mod 1461;
          n1 = n div 365; n = n mod 365;
          y = n400 * 400 + n100 * 100 + n4 * 4 + n1 + 1
      in if n1 = 4 \<or> n100 = 4 then (y - 1, 12, 31)
         else
           (case find (\<lambda>m. n < days_before_month y m + days_in_month y m)
                   [1, 2, 3, 4, 5, 6, 7, 8, 9, 10, 11, 12] of
              None \<Rightarrow> (y, 12, 31)
            | Some m \<Rightarrow> (y, m, n - days_before_month y m + 1)))"

definition digit_value :: "char \<Rightarrow> nat option" where
  "digit_value ch =
     map_of [(CHR ''0'', 0), (CHR ''1'', 1), (CHR ''2'', 2), (CHR ''3'', 3), (CHR ''4'', 4),
             (CHR ''5'', 5), (CHR ''6'', 6), (CHR ''7'', 7), (CHR ''8'', 8), (CHR ''9'', 9)] ch"

fun digits_value :: "string \<Rightarrow> nat \<Rightarrow> nat option" where
  "digits_value [] acc = Some acc"
| "digits_value (ch # cs) acc =
     (case digit_value ch of None \<Rightarrow> None | Some v \<Rightarrow> digits_value cs (10 * acc + v))"

definition number :: "string \<Rightarrow> nat option" where
  "number s = (if s = [] then None else digits_value s 0)"

definition parse_date :: "string \<Rightarrow> nat option" where
  "parse_date s =
     (if length s = 10 \<and> s ! 4 = CHR ''-'' \<and> s ! 7 = CHR ''-'' then
        (case (number (take 4 s), number (take 2 (drop 5 s)), number (drop 8 s)) of
           (Some y, Some m, Some d) \<Rightarrow>
             if 1 \<le> y \<and> 1 \<le> m \<and> m \<le> 12 \<and> 1 \<le> d \<and> d \<le> days_in_month y m
             then Some (ymd2ord y m d) else None
         | _ \<Rightarrow> None)
      else None)"

definition parse_offset :: "string \<Rightarrow> int option" where
  "parse_offset z =
     (if z = ''Z'' then Some 0
      else if (length z = 5 \<or> length z = 6 \<and> z ! 3 = CHR '':'')
              \<and> (z ! 0 = CHR ''+'' \<or> z ! 0 = CHR ''-'') then
        (case (number (take 2 (drop 1 z)), number (drop (length z - 2) z)) of
           (Some h, Some m) \<Rightarrow>
             if h < 24 \<and> m < 60 then
               Some ((if z ! 0 = CHR ''-'' then - 1 else 1) * (int h * 3600 + int m * 60) * 1000000)
             else None
         | _ \<Rightarrow> None)
      else None)"

definition parse_datetime :: "string \<Rightarrow> (int \<times> int) option" where
  "parse_datetime s =
     (if 20 < length s \<and> s ! 10 = CHR ''T'' \<and> s ! 13 = CHR '':'' \<and> s ! 16 = CHR '':''
         \<and> s ! 19 = CHR ''.'' then
        (let frac = takeWhile (\<lambda>ch. digit_value ch \<noteq> None) (take 6 (drop 20 s));
             z = drop (20 + length frac) s
         in case (parse_date (take 10 s), number (take 2 (drop 11 s)),
                  number (take 2 (drop 14 s)), number (take 2 (drop 17 s)),
                  number frac, parse_offset z) of
              (Some day, Some h, Some m, Some sec, Some f, Some off) \<Rightarrow>
                if h < 24 \<and> m < 60 \<and> sec < 60 then
                  Some (((int day - 1) * 86400 + int h * 3600 + int m * 60 + int sec) * 1000000
                          + int f * 10 ^ (6 - length frac), off)
                else None
            | _ \<Rightarrow> None)
      else None)"

definition pad :: "nat \<Rightarrow> nat \<Rightarrow> string" where
  "pad width n = replicate (width - length (nat_digits n)) CHR ''0'' @ nat_digits n"

definition format_date :: "int \<Rightarrow> string" where
  "format_date d =
     (case ord2ymd (nat d) of (y, m, dd) \<Rightarrow> pad 4 y @ ''-'' @ pad 2 m @ ''-'' @ pad 2 dd)"

definition format_offset :: "int option \<Rightarrow> string" where
  "format_offset off =
     (case off of
        None \<Rightarrow> []
      | Some z \<Rightarrow>
          (let a = nat (abs z) div 1000000
           in (if z < 0 then ''-'' else ''+'') @ pad 2 (a div 3600) @ pad 2 (a div 60 mod 60)
              @ (if a mod 60 = 0 then [] else pad 2 (a mod 60))))"

definition format_datetime :: "datetime \<Rightarrow> string" where
  "format_datetime t =
     (let secs = nat (wall t div 1000000) mod 86400
      in format_date (wall t div 86400000000 + 1) @ ''T'' @ pad 2 (secs div 3600) @ '':''
         @ pad 2 (secs div 60 mod 60) @ '':'' @ pad 2 (secs mod 60) @ ''.000''
         @ format_offset (utcoffset t))"

definition shanghai :: pylib where
  "shanghai =
     \<lparr>strptime_datetime = parse_datetime,
      strptime_date = (\<lambda>s. map_option int (parse_date s)),
      strftime_datetime = format_datetime,
      strftime_date = format_date,
      local_timezone = ''Asia/Shanghai'',
      local_utcoffset = (\<lambda>instant. 28800000000),
      ambiguous = (\<lambda>key reading. False),
      str_compound = (\<lambda>v. []),
      enable_link = True\<rparr>"

section \<open>Property descriptors (orm.py)\<close>

text \<open>
  One constructor per descriptor class. \<open>Raw\<close> carries the current value of its
  \<open>format\<close> attribute (\<open>None\<close> until \<open>RawProperty.load\<close> assigns it);
  \<open>Relation\<close> carries the name of the related model. \<open>ReadOnlyProperty\<close> is the single class the code has for
  created time, files, formula, last edited time, rollup and unique id.
\<close>

datatype kind =
  Raw pyval | ReadOnly | Title | RichText | Date | Url | Email | PhoneNumber
  | Checkbox | Number | Status | Select | MultiSelect | Relation string

datatype property = Property (kind: kind) (name: "string option")

fun format :: "kind \<Rightarrow> pyval" where
  "format (Raw f) = f"
| "format ReadOnly = PNone"
| "format Title = PStr ''title''"
| "format RichText = PStr ''rich_text''"
| "format Date = PStr ''date''"
| "format Url = PStr ''url''"
| "format Email = PStr ''email''"
| "format PhoneNumber = PStr ''phone_number''"
| "format Checkbox = PStr ''checkbox''"
| "format Number = PStr ''number''"
| "format Status = PStr ''status''"
| "format Select = PStr ''select''"
| "format MultiSelect = PStr ''multi_select''"
| "format (Relation m) = PStr ''relation''"

text \<open>\<open>DateProperty.__date_text\<close>: a datetime is written with the first format, anything
  else is asked for \<open>strftime\<close> with the second, which only a date has.\<close>

fun date_text :: "pylib \<Rightarrow> pyval \<Rightarrow> error + pyval" where
  "date_text L (PDateTime t) = Inr (PStr (strftime_datetime L t))"
| "date_text L (PDate d) = Inr (PStr (strftime_date L d))"
| "date_text L v = Inl AttributeError"

fun date_dump_value :: "pylib \<Rightarrow> pyval \<Rightarrow> error + pyval" where
  "date_dump_value L (PDateTime t) =
     ebind (date_text L (PDateTime t)) (\<lambda>s. Inr (PDict [(PStr ''start'', s)]))"
| "date_dump_value L (PList xs) =
     (case xs of
        [] \<Rightarrow> Inl IndexError
      | x # rest \<Rightarrow>
          ebind (date_text L x) (\<lambda>s.
            case rest of
              [] \<Rightarrow> Inr (PDict [(PStr ''start'', s)])
            | y # _ \<Rightarrow>
                ebind (date_text L y) (\<lambda>e.
                  Inr (PDict [(PStr ''start'', s), (PStr ''end'', e)]))))"
| "date_dump_value L v = Inl ValueError"

fun dump_value :: "pylib \<Rightarrow> kind \<Rightarrow> pyval \<Rightarrow> error + pyval" where
  "dump_value L (Raw f) v = Inr v"
| "dump_value L ReadOnly v = Inr PNone"
| "dump_value L Title v = Inr (PList [PDict [(PStr ''text'', PDict [(PStr ''content'', v)])]])"
| "dump_value L RichText v = Inr (PList [PDict [(PStr ''text'', PDict [(PStr ''content'', v)])]])"
| "dump_value L Date v = date_dump_value L v"
| "dump_value L Url v = Inr v"
| "dump_value L Email v = Inr v"
| "dump_value L PhoneNumber v = Inr v"
| "dump_value L Checkbox v = Inr v"
| "dump_value L Number v = Inr v"
| "dump_value L Status v = Inr (PDict [(PStr ''name'', v)])"
| "dump_value L Select v = Inr (PDict [(PStr ''name'', v)])"
| "dump_value L MultiSelect v =
     ebind (py_iter v) (\<lambda>items. Inr (PList (map (\<lambda>item. PDict [(PStr ''name'', item)]) items)))"
| "dump_value L (Relation m) v =
     ebind (py_iter v) (\<lambda>ids. Inr (PList (map (\<lambda>i. PDict [(PStr ''id'', i)]) ids)))"

text \<open>\<open>Property.dump\<close> wraps the value under the format; \<open>RawProperty.dump\<close> does not.\<close>

fun dump :: "pylib \<Rightarrow> kind \<Rightarrow> pyval \<Rightarrow> error + pyval" where
  "dump L (Raw f) v = dump_value L (Raw f) v"
| "dump L k v = ebind (dump_value L k v) (\<lambda>p. Inr (PDict [(format k, p)]))"

text \<open>\<open>Property.filter_value\<close> and its override in \<open>DateProperty\<close>. With an operator
  other than \<open>'='\<close> the local \<open>operator_key\<close> is never bound. The dictionary literal has
  the key \<open>'property'\<close> first and the format second.\<close>

definition base_filter_value :: "property \<Rightarrow> pyval \<Rightarrow> string \<Rightarrow> error + pyval" where
  "base_filter_value p v operator =
     (if operator = ''='' then
        Inr (PDict (AList.update (format (kind p)) (PDict [(PStr ''equals'', v)])
               [(PStr ''property'', (case name p of None \<Rightarrow> PNone | Some n \<Rightarrow> PStr n))]))
      else Inl NameError)"

definition filter_value :: "pylib \<Rightarrow> property \<Rightarrow> pyval \<Rightarrow> string \<Rightarrow> error + pyval" where
  "filter_value L p v operator =
     (if kind p = Date then
        ebind (py_first v) (\<lambda>d. ebind (date_text L d) (\<lambda>s. base_filter_value p s operator))
      else base_filter_value p v operator)"

section \<open>Records (orm.py, Model)\<close>

text \<open>
  A record type is its \<open>__database_id__\<close>, its descriptors as \<open>inspect.getmembers\<close>
  lists them (attribute name and descriptor, in the order of the names) and its
  \<open>unique_keys\<close>. An instance is its attributes: \<open>self.id\<close> is the attribute
  \<open>''id''\<close>, and every declared field is an attribute of its own name.
\<close>

record model =
  database_id :: string
  properties :: "(string \<times> property) list"
  unique_keys :: "string list"

type_synonym model_instance = "string \<Rightarrow> pyval"

definition remote_name :: "string \<Rightarrow> property \<Rightarrow> string" where
  "remote_name key define =
     (case name define of None \<Rightarrow> key | Some n \<Rightarrow> if n = [] then key else n)"

text \<open>\<open>Model.__dump_properties\<close>: the loop over the descriptors that are not read-only.\<close>

fun dump_loop ::
  "pylib \<Rightarrow> model \<Rightarrow> model_instance \<Rightarrow> bool \<Rightarrow> (string \<times> property) list \<Rightarrow> pydict \<Rightarrow> error + pydict"
where
  "dump_loop L c self exclude_unique_keys [] data = Inr data"
| "dump_loop L c self exclude_unique_keys ((key, define) # rest) data =
     (if exclude_unique_keys \<and> key \<in> set (unique_keys c) then
        dump_loop L c self exclude_unique_keys rest data
      else if self key \<noteq> PNone then
        ebind (dump L (kind define) (self key)) (\<lambda>p.
          dump_loop L c self exclude_unique_keys rest
            (AList.update (PStr (remote_name key define)) p data))
      else dump_loop L c self exclude_unique_keys rest data)"

definition properties_define :: "model \<Rightarrow> (string \<times> property) list" where
  "properties_define c = filter (\<lambda>(attr, value). kind value \<noteq> ReadOnly) (properties c)"

definition dump_properties :: "pylib \<Rightarrow> model \<Rightarrow> model_instance \<Rightarrow> bool \<Rightarrow> error + pydict" where
  "dump_properties L c self exclude_unique_keys =
     dump_loop L c self exclude_unique_keys (properties_define c) []"

text \<open>
  \<open>Property.load\<close> with its overrides. \<open>RawProperty.load\<close> assigns the descriptor's
  \<open>format\<close> before it subscripts, so the descriptor is returned with the result, also
  when the subscript fails. \<open>RelationProperty.load\<close> asks the related model's manager
  for every identifier and keeps \<open>str\<close> of the record it gets: \<open>related\<close> stands for
  \<open>str(self.related_model.objects.get(related_id))\<close>, given the related model's name.
\<close>

definition raw_load :: "pyval \<Rightarrow> pyval \<Rightarrow> (error + pyval) \<times> pyval" where
  "raw_load f data =
     (case data of
        PDict d \<Rightarrow>
          (case map_of d (PStr ''type'') of
             None \<Rightarrow> (Inl KeyError, f)
           | Some t \<Rightarrow>
               (case t of
                  PList _ \<Rightarrow> (Inl TypeError, t)
                | PDict _ \<Rightarrow> (Inl TypeError, t)
                | _ \<Rightarrow> (case map_of d t of None \<Rightarrow> (Inl KeyError, t) | Some v \<Rightarrow> (Inr v, t))))
      | _ \<Rightarrow> (Inl TypeError, f))"

definition relation_load ::
  "pylib \<Rightarrow> (string \<Rightarrow> pyval \<Rightarrow> error + pyval) \<Rightarrow> string \<Rightarrow> pyval \<Rightarrow> error + pyval"
where
  "relation_load L related m data =
     ebind (convert_data L data) (\<lambda>related_ids.
     ebind (py_iter related_ids) (\<lambda>ids.
     ebind (emap (\<lambda>i. ebind (related m i) (\<lambda>label. Inr (i, label))) ids) (\<lambda>entries.
       Inr (PDict (fold (\<lambda>(i, label) acc. AList.update i label acc) entries [])))))"

fun load ::
  "pylib \<Rightarrow> (string \<Rightarrow> pyval \<Rightarrow> error + pyval) \<Rightarrow> property \<Rightarrow> pyval
     \<Rightarrow> (error + pyval) \<times> property"
where
  "load L related (Property (Raw f) n) data =
     (case raw_load f data of (r, f') \<Rightarrow> (r, Property (Raw f') n))"
| "load L related (Property (Relation m) n) data =
     (relation_load L related m data, Property (Relation m) n)"
| "load L related p data = (convert_data L data, p)"

text \<open>\<open>Model._load_properties\<close>: the loop over all descriptors, read-only ones too. It
  gives the keyword arguments for the constructor and the descriptors as the loads left
  them.\<close>

fun load_loop ::
  "pylib \<Rightarrow> (string \<Rightarrow> pyval \<Rightarrow> error + pyval) \<Rightarrow> pyval \<Rightarrow> (string \<times> property) list
     \<Rightarrow> (error + (string \<times> pyval) list) \<times> (string \<times> property) list"
where
  "load_loop L related data [] = (Inr [], [])"
| "load_loop L related data ((key, define) # rest) =
     (case py_in (remote_name key define) data of
        Inl e \<Rightarrow> (Inl e, (key, define) # rest)
      | Inr False \<Rightarrow>
          (case load_loop L related data rest of (r, rest') \<Rightarrow> (r, (key, define) # rest'))
      | Inr True \<Rightarrow>
          (case py_item data (remote_name key define) of
             Inl e \<Rightarrow> (Inl e, (key, define) # rest)
           | Inr v \<Rightarrow>
               (case load L related define v of
                  (Inl e, define') \<Rightarrow> (Inl e, (key, define') # rest)
                | (Inr x, define') \<Rightarrow>
                    (case load_loop L related data rest of
                       (r, rest') \<Rightarrow>
                         (ebind r (\<lambda>kwargs. Inr ((key, x) # kwargs)), (key, define') # rest')))))"

definition load_properties ::
  "pylib \<Rightarrow> (string \<Rightarrow> pyval \<Rightarrow> error + pyval) \<Rightarrow> model \<Rightarrow> pyval
     \<Rightarrow> (error + (string \<times> pyval) list) \<times> model"
where
  "load_properties L related c data =
     (case load_loop L related data (properties c) of
        (r, ps) \<Rightarrow> (r, c\<lparr>properties := ps\<rparr>))"

text \<open>\<open>Model.__init__\<close>: every attribute starts as \<open>None\<close>; a keyword that names a
  descriptor sets that attribute, \<open>id\<close> sets the identifier, anything else is refused.\<close>

fun init_loop :: "model \<Rightarrow> (string \<times> pyval) list \<Rightarrow> model_instance \<Rightarrow> error + model_instance" where
  "init_loop c [] self = Inr self"
| "init_loop c ((key, v) # kwargs) self =
     (if key \<in> fst ` set (properties c) then init_loop c kwargs (self(key := v))
      else if key = ''id'' then init_loop c kwargs (self(''id'' := v))
      else Inl InvalidProperty)"

definition Model_init :: "model \<Rightarrow> (string \<times> pyval) list \<Rightarrow> error + model_instance" where
  "Model_init c kwargs =
     (if database_id c = [] then Inl AssertionError else init_loop c kwargs (\<lambda>attr. PNone))"

section \<open>The remote store and the manager (orm.py, Manager)\<close>

text \<open>
  The Notion client is outside the repository: each endpoint is a function of the store's
  state and the keyword arguments. A listing (read through \<open>iterate_paginated_api\<close>)
  gives all its results and leaves the store as it is; a mutation gives a response and the
  next state. Transport failures are not modelled. Every call of a record's own operation
  is logged with its keyword arguments; the reads behind \<open>related\<close> are not.
\<close>

record 's remote =
  databases_query :: "'s \<Rightarrow> pydict \<Rightarrow> pyval list"
  pages_create :: "'s \<Rightarrow> pydict \<Rightarrow> pyval \<times> 's"
  pages_update :: "'s \<Rightarrow> pydict \<Rightarrow> pyval \<times> 's"
  related :: "'s \<Rightarrow> string \<Rightarrow> pyval \<Rightarrow> error + pyval"

datatype call = DatabasesQuery pydict | PagesCreate pydict | PagesUpdate pydict

record 's world =
  store :: 's
  calls :: "call list"

record manager =
  model :: model
  query_filter :: pyval
  query_order_by :: pyval

definition Manager_init :: "model \<Rightarrow> manager" where
  "Manager_init c = \<lparr>model = c, query_filter = PNone, query_order_by = PNone\<rparr>"

definition Manager_filter :: "manager \<Rightarrow> pyval \<Rightarrow> manager" where
  "Manager_filter m flt = m\<lparr>query_filter := flt\<rparr>"

definition Manager_order_by :: "manager \<Rightarrow> pyval list \<Rightarrow> manager" where
  "Manager_order_by m args = m\<lparr>query_order_by := PList args\<rparr>"

definition query_kwargs :: "manager \<Rightarrow> pydict" where
  "query_kwargs m =
     [(PStr ''database_id'', PStr (database_id (model m)))]
     @ (if truthy (query_filter m) then [(PStr ''filter'', query_filter m)] else [])
     @ (if truthy (query_order_by m) then [(PStr ''sorts'', query_order_by m)] else [])"

text \<open>The loop of \<open>Manager.query\<close> over the pages the store returned.\<close>

fun query_loop ::
  "pylib \<Rightarrow> (string \<Rightarrow> pyval \<Rightarrow> error + pyval) \<Rightarrow> model \<Rightarrow> pyval list
     \<Rightarrow> (error + model_instance list) \<times> model"
where
  "query_loop L rel c [] = (Inr [], c)"
| "query_loop L rel c (page # pages) =
     (case py_item page ''properties'' of
        Inl e \<Rightarrow> (Inl e, c)
      | Inr data \<Rightarrow>
          (case load_properties L rel c data of
             (Inl e, c') \<Rightarrow> (Inl e, c')
           | (Inr kwargs, c') \<Rightarrow>
               (case ebind (py_item page ''id'') (\<lambda>i. Model_init c' ((''id'', i) # kwargs)) of
                  Inl e \<Rightarrow> (Inl e, c')
                | Inr obj \<Rightarrow>
                    (case query_loop L rel c' pages of
                       (r, c'') \<Rightarrow> (ebind r (\<lambda>results. Inr (obj # results)), c'')))))"

definition Manager_query ::
  "'s remote \<Rightarrow> pylib \<Rightarrow> manager \<Rightarrow> 's world
     \<Rightarrow> (error + model_instance list) \<times> model \<times> 's world"
where
  "Manager_query R L m w =
     (let query = query_kwargs m;
          pages = databases_query R (store w) query;
          w' = w\<lparr>calls := calls w @ [DatabasesQuery query]\<rparr>
      in case query_loop L (related R (store w)) (model m) pages of (r, c') \<Rightarrow> (r, c', w'))"

text \<open>\<open>ModelBase.objects\<close>: the property of the metaclass builds a manager per access.
  Managers are objects: the heap holds them, a reference is an index, an access allocates,
  and the builder methods change the manager they are called on and return it.\<close>

definition objects :: "model \<Rightarrow> manager list \<Rightarrow> nat \<times> manager list" where
  "objects c h = (length h, h @ [Manager_init c])"

definition filter_at :: "nat \<Rightarrow> pyval \<Rightarrow> manager list \<Rightarrow> nat \<times> manager list" where
  "filter_at r flt h = (r, h[r := Manager_filter (h ! r) flt])"

definition order_by_at :: "nat \<Rightarrow> pyval list \<Rightarrow> manager list \<Rightarrow> nat \<times> manager list" where
  "order_by_at r args h = (r, h[r := Manager_order_by (h ! r) args])"

datatype manager_op = Access model | Filter nat pyval | OrderBy nat "pyval list"

fun run_op :: "manager_op \<Rightarrow> manager list \<Rightarrow> manager list" where
  "run_op (Access c) h = snd (objects c h)"
| "run_op (Filter r flt) h = (if r < length h then snd (filter_at r flt h) else h)"
| "run_op (OrderBy r args) h = (if r < length h then snd (order_by_at r args h) else h)"

section \<open>Saving records (orm.py, Model.save, update, upsert)\<close>

text \<open>An operation ends with the exception it raised, if any, the instance and the
  descriptors as it left them, and the store with the calls made.\<close>

record 's result =
  raised :: "error option"
  inst :: model_instance
  klass :: model
  after :: "'s world"

definition unique_filter :: "pylib \<Rightarrow> model \<Rightarrow> model_instance \<Rightarrow> error + pyval" where
  "unique_filter L c self =
     (let fv = (\<lambda>key. case map_of (properties c) key of
                         None \<Rightarrow> Inl AttributeError
                       | Some p \<Rightarrow> filter_value L p (self key) ''='')
      in case unique_keys c of
           [] \<Rightarrow> Inr PNone
         | [key] \<Rightarrow> fv key
         | keys \<Rightarrow> ebind (emap fv keys) (\<lambda>fs. Inr (PDict [(PStr ''and'', PList fs)])))"

definition update :: "'s remote \<Rightarrow> pylib \<Rightarrow> model \<Rightarrow> model_instance \<Rightarrow> 's world \<Rightarrow> 's result" where
  "update R L c self w =
     (if truthy (self ''id'') then
        (case dump_properties L c self True of
           Inl e \<Rightarrow> \<lparr>raised = Some e, inst = self, klass = c, after = w\<rparr>
         | Inr props \<Rightarrow>
             (let kwargs = [(PStr ''page_id'', self ''id''), (PStr ''properties'', PDict props)];
                  (response, st') = pages_update R (store w) kwargs
              in \<lparr>raised = None, inst = self, klass = c,
                   after = \<lparr>store = st', calls = calls w @ [PagesUpdate kwargs]\<rparr>\<rparr>))
      else \<lparr>raised = Some ValueError, inst = self, klass = c, after = w\<rparr>)"

text \<open>The end of \<open>save\<close>: the call of \<open>pages.create\<close>, whose arguments are evaluated
  before the call, and the assignment of the identifier.\<close>

definition create :: "'s remote \<Rightarrow> pylib \<Rightarrow> model \<Rightarrow> model_instance \<Rightarrow> 's world \<Rightarrow> 's result" where
  "create R L c self w =
     (case dump_properties L c self False of
        Inl e \<Rightarrow> \<lparr>raised = Some e, inst = self, klass = c, after = w\<rparr>
      | Inr props \<Rightarrow>
          (let kwargs = [(PStr ''parent'', PDict [(PStr ''database_id'', PStr (database_id c))]),
                         (PStr ''properties'', PDict props), (PStr ''children'', PList [])];
               (response, st') = pages_create R (store w) kwargs;
               w' = \<lparr>store = st', calls = calls w @ [PagesCreate kwargs]\<rparr>
           in case py_item response ''id'' of
                Inl e \<Rightarrow> \<lparr>raised = Some e, inst = self, klass = c, after = w'\<rparr>
              | Inr i \<Rightarrow> \<lparr>raised = None, inst = self(''id'' := i), klass = c, after = w'\<rparr>))"

definition save :: "'s remote \<Rightarrow> pylib \<Rightarrow> model \<Rightarrow> model_instance \<Rightarrow> 's world \<Rightarrow> 's result" where
  "save R L c self w =
     (if truthy (self ''id'') then update R L c self w
      else if unique_keys c \<noteq> [] then
        (case unique_filter L c self of
           Inl e \<Rightarrow> \<lparr>raised = Some e, inst = self, klass = c, after = w\<rparr>
         | Inr flt \<Rightarrow>
             (case Manager_query R L (Manager_filter (Manager_init c) flt) w of
                (Inl e, c', w') \<Rightarrow> \<lparr>raised = Some e, inst = self, klass = c', after = w'\<rparr>
              | (Inr objs, c', w') \<Rightarrow>
                  if length objs > 0 then
                    \<lparr>raised = Some IntegrityError, inst = self, klass = c', after = w'\<rparr>
                  else create R L c' self w'))
      else create R L c self w)"

definition upsert :: "'s remote \<Rightarrow> pylib \<Rightarrow> model \<Rightarrow> model_instance \<Rightarrow> 's world \<Rightarrow> 's result" where
  "upsert R L c self w =
     (if unique_keys c = [] then save R L c self w
      else
        (case unique_filter L c self of
           Inl e \<Rightarrow> \<lparr>raised = Some e, inst = self, klass = c, after = w\<rparr>
         | Inr flt \<Rightarrow>
             (case Manager_query R L (Manager_filter (Manager_init c) flt) w of
                (Inl e, c', w') \<Rightarrow> \<lparr>raised = Some e, inst = self, klass = c', after = w'\<rparr>
              | (Inr objs, c', w') \<Rightarrow>
                  if length objs = 0 then save R L c' self w'
                  else if length objs = 1 then update R L c' (self(''id'' := (hd objs) ''id'')) w'
                  else \<lparr>raised = Some ValueError, inst = self, klass = c', after = w'\<rparr>)))"

section \<open>Block renderer (__init__.py, _block_to_text; orm.py, Model.__list_blocks)\<close>

definition nl :: string where
  "nl = [CHR 0x0A]"

definition tab :: string where
  "tab = [CHR 0x09]"

text \<open>\<open>prefix + value\<close> with a string on the left, \<open>sep.join(items)\<close> on strings, and
  the loop \<open>for chunk in caption: caption_text += chunk['plain_text']\<close>.\<close>

fun str_concat :: "string \<Rightarrow> pyval \<Rightarrow> error + pyval" where
  "str_concat pre (PStr s) = Inr (PStr (pre @ s))"
| "str_concat pre v = Inl TypeError"

fun join :: "string \<Rightarrow> string list \<Rightarrow> string" where
  "join sep [] = []"
| "join sep [x] = x"
| "join sep (x # y # ys) = x @ sep @ join sep (y # ys)"

definition caption_text :: "pyval \<Rightarrow> error + string" where
  "caption_text payload =
     ebind (py_item payload ''caption'') (\<lambda>caption.
     ebind (py_iter caption) (\<lambda>chunks. plain_text_loop chunks []))"

text \<open>The cells of a \<open>table_row\<close>: every cell is a list of rich-text items.\<close>

fun cell_loop :: "pylib \<Rightarrow> pyval list \<Rightarrow> string \<Rightarrow> error + string" where
  "cell_loop L [] cell_text = Inr cell_text"
| "cell_loop L (text # rest) cell_text =
     ebind (py_item text ''href'') (\<lambda>h.
       if truthy h then
         ebind (py_item text ''plain_text'') (\<lambda>t.
         ebind (py_item text ''href'') (\<lambda>href.
           cell_loop L rest (cell_text @ ''['' @ py_str L t @ ''('' @ py_str L href @ '')]'')))
       else
         ebind (py_item text ''plain_text'') (\<lambda>t.
         ebind (str_add cell_text t) (\<lambda>cell_text'. cell_loop L rest cell_text')))"

definition cells_text :: "pylib \<Rightarrow> pyval \<Rightarrow> error + string list" where
  "cells_text L data =
     ebind (py_item data ''table_row'') (\<lambda>table_row.
     ebind (py_item table_row ''cells'') (\<lambda>cells.
     ebind (py_iter cells) (\<lambda>cs.
       emap (\<lambda>cell. ebind (py_iter cell) (\<lambda>texts. cell_loop L texts [])) cs)))"

definition row_line :: "string list \<Rightarrow> string" where
  "row_line cells = ''| '' @ join '' | '' cells @ '' |''"

definition separator_line :: "string list \<Rightarrow> string" where
  "separator_line cells = ''| '' @ join '' | '' (map (\<lambda>_. ''---'') cells) @ '' |''"

definition table_row_text :: "pylib \<Rightarrow> pyval \<Rightarrow> pyval \<Rightarrow> error + pyval \<times> pyval \<times> string" where
  "table_row_text L data table =
     ebind (cells_text L data) (\<lambda>cells.
       if truthy table then Inr (PStr (row_line cells), table, [])
       else Inr (PStr (row_line cells @ nl @ separator_line cells), PBool True, []))"

text \<open>Branches of \<open>_block_to_text\<close> that share their shape: a prefix before the decoded
  text; a link labelled with the caption; a reference to another page, where the code
  calls \<open>get_url\<close>, a name \<open>__init__.py\<close> never imports.\<close>

definition prefixed :: "pylib \<Rightarrow> pyval \<Rightarrow> string \<Rightarrow> string \<Rightarrow> error + pyval" where
  "prefixed L data key pre =
     ebind (py_item data key) (\<lambda>payload.
     ebind (convert_data L payload) (\<lambda>text. str_concat pre text))"

definition titled_link :: "pyval \<Rightarrow> string \<Rightarrow> error + pyval" where
  "titled_link data key =
     ebind (py_item data key) (\<lambda>child.
     ebind (py_item child ''title'') (\<lambda>title. Inl NameError))"

definition block_keys :: "string list" where
  "block_keys =
     [''bookmark'', ''bulleted_list_item'', ''callout'', ''child_database'', ''child_page'',
      ''code'', ''divider'', ''embed'', ''equation'', ''file'', ''heading_1'', ''heading_2'',
      ''heading_3'', ''image'', ''numbered_list_item'', ''paragraph'', ''pdf'', ''quote'',
      ''table_row'', ''to_do'', ''toggle'', ''video'', ''link_to_page'']"

definition block_nondict :: "(string \<Rightarrow> bool) \<Rightarrow> pyval \<Rightarrow> error + pyval \<times> pyval \<times> string" where
  "block_nondict isin table =
     (case find isin block_keys of
        Some k \<Rightarrow> if k = ''divider'' then Inr (PStr ''---'', table, []) else Inl TypeError
      | None \<Rightarrow> Inl TypeError)"

definition block_to_text :: "pylib \<Rightarrow> pyval \<Rightarrow> pyval \<Rightarrow> error + pyval \<times> pyval \<times> string" where
  "block_to_text L data table =
     (let plain = (\<lambda>r. ebind r (\<lambda>output. Inr (output, table, [])));
          indented = (\<lambda>r. ebind r (\<lambda>output. Inr (output, table, tab)))
      in case data of
        PDict d \<Rightarrow>
          if has_key d ''bookmark'' then
            plain (ebind (py_item data ''bookmark'') (\<lambda>bookmark.
                   ebind (py_item bookmark ''caption'') (\<lambda>caption.
                   ebind (caption_text bookmark) (\<lambda>text.
                   ebind (if enable_link L then py_item bookmark ''url'' else Inr (PStr [])) (\<lambda>url.
                     if truthy caption
                     then Inr (PStr (''['' @ text @ '']('' @ py_str L url @ '')''))
                     else Inr url)))))
          else if has_key d ''bulleted_list_item'' then
            indented (prefixed L data ''bulleted_list_item'' ''* '')
          else if has_key d ''callout'' then
            plain (ebind (py_item data ''callout'') (convert_data L))
          else if has_key d ''child_database'' then plain (titled_link data ''child_database'')
          else if has_key d ''child_page'' then plain (titled_link data ''child_page'')
          else if has_key d ''code'' then
            plain (ebind (py_item data ''code'') (\<lambda>code.
                   ebind (py_item code ''language'') (\<lambda>language.
                   ebind (caption_text code) (\<lambda>text.
                   ebind (convert_data L code) (\<lambda>content.
                     Inr (PStr (text @ nl @ nl @ ''```'' @ py_str L language @ nl
                                @ py_str L content @ nl @ ''```'')))))))
          else if has_key d ''divider'' then plain (Inr (PStr ''---''))
          else if has_key d ''embed'' then
            plain (ebind (py_item data ''embed'') (\<lambda>embed.
                   ebind (caption_text embed) (\<lambda>text.
                   ebind (py_item embed ''url'') (\<lambda>url.
                     Inr (PStr (''['' @ text @ '']('' @ py_str L url @ '')''))))))
          else if has_key d ''equation'' then
            plain (ebind (py_item data ''equation'') (\<lambda>equation.
                   ebind (py_item equation ''expression'') (\<lambda>expression.
                     Inr (PStr (''$$'' @ py_str L expression @ ''$$'')))))
          else if has_key d ''file'' then
            plain (ebind (py_item data ''file'') (\<lambda>file.
                   ebind (caption_text file) (\<lambda>text.
                   ebind (convert_data L file) (\<lambda>file_data.
                   ebind (py_item file_data ''name'') (\<lambda>name.
                   ebind (py_item file_data ''url'') (\<lambda>url.
                     Inr (PStr (text @ nl @ nl @ ''['' @ py_str L name @ '']('' @ py_str L url
                                @ '')''))))))))
          else if has_key d ''heading_1'' then plain (prefixed L data ''heading_1'' ''# '')
          else if has_key d ''heading_2'' then plain (prefixed L data ''heading_2'' ''## '')
          else if has_key d ''heading_3'' then plain (prefixed L data ''heading_3'' ''### '')
          else if has_key d ''image'' then
            plain (ebind (py_item data ''image'') (\<lambda>image.
                   ebind (caption_text image) (\<lambda>text.
                   ebind (convert_data L image) (\<lambda>file_data.
                   ebind (py_item file_data ''url'') (\<lambda>url.
                     Inr (PStr (''!['' @ text @ '']('' @ py_str L url @ '' '' @ [CHR 0x22] @ text
                                @ [CHR 0x22] @ '')'')))))))
          else if has_key d ''numbered_list_item'' then
            indented (prefixed L data ''numbered_list_item'' ''1. '')
          else if has_key d ''paragraph'' then
            plain (ebind (py_item data ''paragraph'') (convert_data L))
          else if has_key d ''pdf'' then
            plain (ebind (py_item data ''pdf'') (\<lambda>pdf.
                   ebind (caption_text pdf) (\<lambda>text.
                   ebind (convert_data L pdf) (\<lambda>file_data.
                   ebind (py_item file_data ''url'') (\<lambda>url.
                     Inr (PStr (''['' @ text @ '']('' @ py_str L url @ '')'')))))))
          else if has_key d ''quote'' then plain (prefixed L data ''quote'' ''> '')
          else if has_key d ''table_row'' then table_row_text L data table
          else if has_key d ''to_do'' then
            indented (ebind (py_item data ''to_do'') (\<lambda>to_do.
                      ebind (py_item to_do ''checked'') (\<lambda>checked.
                      ebind (convert_data L to_do) (\<lambda>to_do_text.
                        str_concat (if truthy checked then ''- [x] '' else ''- [ ] '') to_do_text))))
          else if has_key d ''toggle'' then indented (prefixed L data ''toggle'' ''+ '')
          else if has_key d ''video'' then
            plain (ebind (py_item data ''video'') (\<lambda>video.
                   ebind (caption_text video) (\<lambda>text.
                   ebind (convert_data L video) (\<lambda>file_data.
                   ebind (if text = [] then py_item file_data ''url'' else Inr (PStr text)) (\<lambda>label.
                   ebind (py_item file_data ''url'') (\<lambda>url.
                     Inr (PStr (''['' @ py_str L label @ '']('' @ py_str L url @ '')''))))))))
          else if has_key d ''link_to_page'' then
            plain (ebind (py_item data ''link_to_page'') (\<lambda>link_to_page.
                   ebind (py_item link_to_page ''type'') (\<lambda>ty. Inl NameError)))
          else plain (ebind (py_item data ''type'') (\<lambda>ty. Inr (PStr [])))
      | PList xs \<Rightarrow> block_nondict (\<lambda>k. PStr k \<in> set xs) table
      | PStr s \<Rightarrow> block_nondict (\<lambda>k. substring k s) table
      | _ \<Rightarrow> Inl TypeError)"

text \<open>
  The blocks under a parent form a finite tree: a node is a block as the store returns it
  and the nodes \<open>blocks.children.list\<close> returns for its \<open>id\<close>.
\<close>

datatype node = Node (content: pyval) (children: "node list")

text \<open>\<open>Model.__list_blocks\<close>: the loop over the children of one parent, \<open>table\<close>
  starting as \<open>None\<close> at every level. \<open>'\n' + child_level*indentation + block_text\<close>
  needs a string.\<close>

fun list_blocks_loop :: "pylib \<Rightarrow> nat \<Rightarrow> node list \<Rightarrow> pyval \<Rightarrow> error + string" where
  "list_blocks_loop L child_level [] table = Inr []"
| "list_blocks_loop L child_level (Node block kids # rest) table =
     ebind (block_to_text L block table) (\<lambda>(block_text, table', indentation).
     ebind (if truthy block_text then
              ebind (str_add (nl @ concat (replicate child_level indentation)) block_text) (\<lambda>line.
                Inr ((if indentation = [] \<and> \<not> truthy table' then nl else []) @ line))
            else Inr []) (\<lambda>own.
     ebind (py_item block ''has_children'') (\<lambda>has_children.
     ebind (if truthy has_children then
              ebind (py_item block ''id'') (\<lambda>i. list_blocks_loop L (Suc child_level) kids PNone)
            else Inr []) (\<lambda>below.
     ebind (list_blocks_loop L child_level rest table') (\<lambda>others.
       Inr (own @ below @ others))))))"

definition list_blocks :: "pylib \<Rightarrow> node list \<Rightarrow> error + string" where
  "list_blocks L nodes = list_blocks_loop L 0 nodes PNone"

text \<open>A block that \<open>_block_to_text\<close> renders as a table row: a dictionary with the key
  \<open>table_row\<close> and none of the keys probed before it.\<close>

definition is_table_row :: "pyval \<Rightarrow> bool" where
  "is_table_row data =
     (case data of PDict d \<Rightarrow> find (has_key d) block_keys = Some ''table_row'' | _ \<Rightarrow> False)"

section \<open>Generators (__init__.py, list_recent_pages, list_page_blocks)\<close>

text \<open>A generator ends with the items it yielded and the exception that stopped it, if
  any.\<close>

type_synonym 'a generated = "'a list \<times> error option"

definition yield :: "'a \<Rightarrow> 'a generated \<Rightarrow> 'a generated" where
  "yield x g = (x # fst g, snd g)"

text \<open>\<open>a <= b\<close> with a date or a datetime on the left, as \<open>_str_to_datetime\<close> returns:
  two dates, two naive or two aware datetimes are ordered; any other pair is a
  \<open>TypeError\<close>. Two aware datetimes with one and the same \<open>tzinfo\<close> object are
  compared by their wall-clock readings, whatever their offsets; otherwise by their
  instants. (Two fixed-offset datetimes of one object have one offset, so that both ways
  agree for them.)\<close>

fun same_tzinfo :: "tzinfo \<Rightarrow> tzinfo \<Rightarrow> bool" where
  "same_tzinfo (ZoneInfo k) (ZoneInfo k') = (k = k')"
| "same_tzinfo z z' = False"

fun moment_le :: "pyval \<Rightarrow> pyval \<Rightarrow> error + bool" where
  "moment_le (PDate a) (PDate b) = Inr (a \<le> b)"
| "moment_le (PDateTime a) (PDateTime b) =
     (case (aware a, aware b) of
        (Some (za, oa), Some (zb, ob)) \<Rightarrow>
          if same_tzinfo za zb then Inr (wall a \<le> wall b)
          else Inr (wall a - oa \<le> wall b - ob)
      | (None, None) \<Rightarrow> Inr (wall a \<le> wall b)
      | _ \<Rightarrow> Inl TypeError)"
| "moment_le x y = Inl TypeError"

definition search_payload :: "pyval \<Rightarrow> pydict" where
  "search_payload page_size =
     [(PStr ''filter'', PDict [(PStr ''value'', PStr ''page''), (PStr ''property'', PStr ''object'')]),
      (PStr ''sort'', PDict [(PStr ''direction'', PStr ''descending''),
                             (PStr ''timestamp'', PStr ''last_edited_time'')]),
      (PStr ''page_size'', page_size)]"

fun recent_loop :: "pylib \<Rightarrow> pyval \<Rightarrow> pyval list \<Rightarrow> pyval generated" where
  "recent_loop L cutoff_time [] = ([], None)"
| "recent_loop L cutoff_time (page # pages) =
     (if truthy cutoff_time then
        (case ebind (py_item page ''last_edited_time'') (\<lambda>s.
                ebind (str_to_datetime L s) (\<lambda>t. moment_le t cutoff_time)) of
           Inl e \<Rightarrow> ([], Some e)
         | Inr True \<Rightarrow> ([], None)
         | Inr False \<Rightarrow> yield page (recent_loop L cutoff_time pages))
      else yield page (recent_loop L cutoff_time pages))"

text \<open>\<open>search\<close> is \<open>client.search\<close> read through \<open>iterate_paginated_api\<close>: the pages it
  gives for a payload, in its order.\<close>

definition list_recent_pages ::
  "pylib \<Rightarrow> (pydict \<Rightarrow> pyval list) \<Rightarrow> pyval \<Rightarrow> pyval \<Rightarrow> pyval generated"
where
  "list_recent_pages L search cutoff_time page_size =
     recent_loop L cutoff_time (search (search_payload page_size))"

text \<open>\<open>list_page_blocks\<close> over the children of a page. The recursive call is
  \<open>list_page_blocks(client, block['id'], page_size)\<close>: below the first level
  \<open>exclude_synced_block\<close> is the caller's \<open>page_size\<close> and \<open>page_size\<close> is the default,
  100. The test that skips a block is \<open>not block['synced_block']['synced_from']\<close>.\<close>

definition descends :: "pyval \<Rightarrow> error + bool" where
  "descends block =
     ebind (py_item block ''has_children'') (\<lambda>has_children.
       if truthy has_children then
         ebind (py_item block ''type'') (\<lambda>ty. Inr (ty \<noteq> PStr ''child_page''))
       else Inr False)"

definition skipped :: "pyval \<Rightarrow> pyval \<Rightarrow> error + bool" where
  "skipped exclude_synced_block block =
     (if truthy exclude_synced_block then
        ebind (py_in ''synced_block'' block) (\<lambda>present.
          if present then
            ebind (py_item block ''synced_block'') (\<lambda>synced_block.
            ebind (py_item synced_block ''synced_from'') (\<lambda>synced_from.
              Inr (\<not> truthy synced_from)))
          else Inr False)
      else Inr False)"

fun list_page_blocks :: "pyval \<Rightarrow> pyval \<Rightarrow> node list \<Rightarrow> pyval generated" where
  "list_page_blocks exclude_synced_block page_size [] = ([], None)"
| "list_page_blocks exclude_synced_block page_size (Node block kids # rest) =
     (case descends block of
        Inl e \<Rightarrow> ([], Some e)
      | Inr False \<Rightarrow> yield block (list_page_blocks exclude_synced_block page_size rest)
      | Inr True \<Rightarrow>
          (case skipped exclude_synced_block block of
             Inl e \<Rightarrow> ([], Some e)
           | Inr True \<Rightarrow> list_page_blocks exclude_synced_block page_size rest
           | Inr False \<Rightarrow>
               (case py_item block ''id'' of
                  Inl e \<Rightarrow> ([], Some e)
                | Inr i \<Rightarrow>
                    (case list_page_blocks page_size (PInt 100) kids of
                       (below, Some e) \<Rightarrow> (below, Some e)
                     | (below, None) \<Rightarrow>
                         (case list_page_blocks exclude_synced_block page_size rest of
                            (others, e) \<Rightarrow> (below @ block # others, e))))))"

section \<open>Notions for the properties, and example data\<close>

text \<open>A record type with a read-only field, a renamed unique e-mail field, a title and a
  date, and an instance of it.\<close>

definition crm :: model where
  "crm = \<lparr>database_id = ''db'',
          properties = [(''created'', Property ReadOnly None),
                        (''email'', Property Email (Some ''Email'')),
                        (''title'', Property Title None), (''when'', Property Date None)],
          unique_keys = [''email'']\<rparr>"

definition ann :: model_instance where
  "ann = (\<lambda>attr. PNone)(''email'' := PStr ''a@x.com'', ''title'' := PStr ''Ann'')"

text \<open>A store with no record in the collection, which gives every created page the
  identifier \<open>p1\<close>, and the world before any call.\<close>

definition notion :: "unit remote" where
  "notion = \<lparr>databases_query = (\<lambda>st kwargs. []),
             pages_create = (\<lambda>st kwargs. (PDict [(PStr ''id'', PStr ''p1'')], st)),
             pages_update = (\<lambda>st kwargs. (PDict [(PStr ''id'', PStr ''p1'')], st)),
             related = (\<lambda>st m i. Inr i)\<rparr>"

definition start :: "unit world" where
  "start = \<lparr>store = (), calls = []\<rparr>"

text \<open>The manager a builder call is made on.\<close>

fun target :: "manager_op \<Rightarrow> nat option" where
  "target (Access c) = None"
| "target (Filter r flt) = Some r"
| "target (OrderBy r args) = Some r"

text \<open>The query \<open>save\<close> and \<open>upsert\<close> send for a uniqueness filter; which calls change
  the store; and when two outcomes agree in everything but the reads that were made.\<close>

definition unique_query :: "model \<Rightarrow> pyval \<Rightarrow> pydict" where
  "unique_query c flt = query_kwargs (Manager_filter (Manager_init c) flt)"

fun is_mutation :: "call \<Rightarrow> bool" where
  "is_mutation (DatabasesQuery kwargs) = False"
| "is_mutation (PagesCreate kwargs) = True"
| "is_mutation (PagesUpdate kwargs) = True"

definition same_effect :: "'s result \<Rightarrow> 's result \<Rightarrow> bool" where
  "same_effect r r' =
     (raised r = raised r' \<and> inst r = inst r' \<and> klass r = klass r'
      \<and> store (after r) = store (after r')
      \<and> filter is_mutation (calls (after r)) = filter is_mutation (calls (after r')))"

text \<open>An instance whose date field holds a bare date; a record type without uniqueness
  keys; a store that holds two records with Ann's e-mail address; the filter for that
  address.\<close>

definition bob :: model_instance where
  "bob = ann(''when'' := PDate 738886)"

definition journal :: model where
  "journal = \<lparr>database_id = ''db2'', properties = [(''title'', Property Title None)],
            unique_keys = []\<rparr>"

definition crowded :: "unit remote" where
  "crowded = notion\<lparr>databases_query := (\<lambda>st kwargs.
      [PDict [(PStr ''id'', PStr ''p7''),
              (PStr ''properties'', PDict [(PStr ''Email'', PDict [(PStr ''email'', PStr ''a@x.com'')])])],
       PDict [(PStr ''id'', PStr ''p8''),
              (PStr ''properties'', PDict [(PStr ''Email'', PDict [(PStr ''email'', PStr ''a@x.com'')])])]])\<rparr>"

definition email_filter :: pyval where
  "email_filter = PDict [(PStr ''property'', PStr ''Email''),
                         (PStr ''email'', PDict [(PStr ''equals'', PStr ''a@x.com'')])]"

text \<open>Blocks for the examples: a paragraph of plain text; a synced block with children,
  given its \<open>synced_from\<close>; a mirror of the block \<open>o1\<close> and the origin \<open>o1\<close> itself, each
  with one paragraph below it; a table row with plain cells; three rows in sequence, and a
  table interrupted by a paragraph.\<close>

definition paragraph_block :: "string \<Rightarrow> string \<Rightarrow> pyval" where
  "paragraph_block i text =
     PDict [(PStr ''id'', PStr i), (PStr ''type'', PStr ''paragraph''),
            (PStr ''has_children'', PBool False),
            (PStr ''paragraph'', PDict [(PStr ''rich_text'',
               PList [PDict [(PStr ''plain_text'', PStr text), (PStr ''href'', PNone)]])])]"

definition synced :: "string \<Rightarrow> pyval \<Rightarrow> pyval" where
  "synced i synced_from =
     PDict [(PStr ''id'', PStr i), (PStr ''type'', PStr ''synced_block''),
            (PStr ''has_children'', PBool True),
            (PStr ''synced_block'', PDict [(PStr ''synced_from'', synced_from)])]"

definition mirror :: node where
  "mirror = Node (synced ''m1'' (PDict [(PStr ''type'', PStr ''block_id''), (PStr ''block_id'', PStr ''o1'')]))
              [Node (paragraph_block ''c1'' ''copy'') []]"

definition origin :: node where
  "origin = Node (synced ''o1'' PNone) [Node (paragraph_block ''c2'' ''text'') []]"

definition table_row :: "string list \<Rightarrow> pyval" where
  "table_row cells =
     PDict [(PStr ''type'', PStr ''table_row''), (PStr ''has_children'', PBool False),
            (PStr ''table_row'', PDict [(PStr ''cells'',
               PList (map (\<lambda>c. PList [PDict [(PStr ''plain_text'', PStr c), (PStr ''href'', PNone)]]) cells))])]"

definition three_rows :: "node list" where
  "three_rows = [Node (table_row [''a'', ''b'']) [], Node (table_row [''c'', ''d'']) [],
                 Node (table_row [''e'', ''f'']) []]"

definition interrupted :: "node list" where
  "interrupted = [Node (table_row [''a'', ''b'']) [], Node (paragraph_block ''p1'' ''note'') [],
                  Node (table_row [''c'', ''d'']) []]"

text \<open>Writing a value with a descriptor and reading the payload back with the same
  descriptor: \<open>define.load(define.dump(x))\<close>, the two calls \<open>__dump_properties\<close> and
  \<open>_load_properties\<close> make.\<close>

definition decode_encode ::
  "pylib \<Rightarrow> (string \<Rightarrow> pyval \<Rightarrow> error + pyval) \<Rightarrow> property \<Rightarrow> pyval \<Rightarrow> error + pyval"
where
  "decode_encode L rel p x =
     ebind (dump L (kind p) x) (\<lambda>payload. fst (load L rel p payload))"

text \<open>\<open>a == b\<close> on dates and datetimes. Two aware datetimes with one \<open>tzinfo\<close> object
  are equal when their readings are; with two objects they are equal when they are the
  same instant and neither offset depends on \<open>fold\<close>; an aware and a naive one, and a date
  and a datetime, are never equal.\<close>

definition fold_dependent :: "pylib \<Rightarrow> datetime \<Rightarrow> bool" where
  "fold_dependent L t =
     (case aware t of Some (ZoneInfo k, off) \<Rightarrow> ambiguous L k (wall t) | _ \<Rightarrow> False)"

fun same_moment :: "pylib \<Rightarrow> pyval \<Rightarrow> pyval \<Rightarrow> bool" where
  "same_moment L (PDate a) (PDate b) = (a = b)"
| "same_moment L (PDateTime a) (PDateTime b) =
     (case (aware a, aware b) of
        (Some (za, oa), Some (zb, ob)) \<Rightarrow>
          if same_tzinfo za zb then wall a = wall b
          else \<not> fold_dependent L a \<and> \<not> fold_dependent L b \<and> wall a - oa = wall b - ob
      | (None, None) \<Rightarrow> wall a = wall b
      | _ \<Rightarrow> False)"
| "same_moment L x y = False"

text \<open>The library reads the text it writes for \<open>a\<close> as a value equal to \<open>a\<close>.\<close>

definition reads_back :: "pylib \<Rightarrow> pyval \<Rightarrow> bool" where
  "reads_back L a =
     (case ebind (date_text L a) (str_to_datetime L) of
        Inl e \<Rightarrow> False
      | Inr a' \<Rightarrow> same_moment L a' a)"

text \<open>18:00 on 1 January 2024 in Shanghai, the same instant with the zone UTC, and the
  first one a microsecond later.\<close>

definition evening :: pyval where
  "evening = PDateTime (DateTime 63839728800000000 (Some (ZoneInfo ''Asia/Shanghai'', 28800000000)))"

definition morning_utc :: pyval where
  "morning_utc = PDateTime (DateTime 63839700000000000 (Some (Timezone, 0)))"

definition evening_and_a_bit :: pyval where
  "evening_and_a_bit =
     PDateTime (DateTime 63839728800000001 (Some (ZoneInfo ''Asia/Shanghai'', 28800000000)))"

text \<open>The two pieces \<open>__list_blocks\<close> adds for one block: the block's own text with
  the newlines and the indentation before it, and the text of the blocks under it.\<close>

definition own_text :: "nat \<Rightarrow> pyval \<Rightarrow> pyval \<Rightarrow> string \<Rightarrow> error + string" where
  "own_text child_level block_text table' indentation =
     (if truthy block_text then
        ebind (str_add (nl @ concat (replicate child_level indentation)) block_text) (\<lambda>line.
          Inr ((if indentation = [] \<and> \<not> truthy table' then nl else []) @ line))
      else Inr [])"

definition below_text :: "pylib \<Rightarrow> nat \<Rightarrow> pyval \<Rightarrow> node list \<Rightarrow> error + string" where
  "below_text L child_level block kids =
     ebind (py_item block ''has_children'') (\<lambda>has_children.
       if truthy has_children then
         ebind (py_item block ''id'') (\<lambda>i. list_blocks_loop L (Suc child_level) kids PNone)
       else Inr [])"

text \<open>A block whose \<open>has_children\<close> is there and false.\<close>

definition childless :: "pyval \<Rightarrow> bool" where
  "childless block =
     (case py_item block ''has_children'' of
        Inr has_children \<Rightarrow> \<not> truthy has_children
      | Inl e \<Rightarrow> False)"

text \<open>The datetime \<open>_str_to_datetime\<close> gives for the time a page was last edited, when
  the page carries one the first format reads; the instant of a datetime; a page edited
  after a cutoff as instants are ordered, and as wall-clock readings are; the order
  \<open>list_recent_pages\<close> compares in, which is that of readings when the cutoff carries the
  local zone object itself; a stream in the order the search asks for, newest first.\<close>

definition last_edited :: "pylib \<Rightarrow> pyval \<Rightarrow> datetime option" where
  "last_edited L page =
     (case py_item page ''last_edited_time'' of
        Inr (PStr s) \<Rightarrow>
          (case strptime_datetime L s of
             Some p \<Rightarrow> (case astimezone L p of Inr t \<Rightarrow> Some t | Inl e \<Rightarrow> None)
           | None \<Rightarrow> None)
      | _ \<Rightarrow> None)"

definition instant :: "datetime \<Rightarrow> int" where
  "instant t = wall t - (case utcoffset t of Some off \<Rightarrow> off | None \<Rightarrow> 0)"

definition newer_instant :: "pylib \<Rightarrow> datetime \<Rightarrow> pyval \<Rightarrow> bool" where
  "newer_instant L cutoff page =
     (case last_edited L page of Some t \<Rightarrow> instant cutoff < instant t | None \<Rightarrow> False)"

definition newer_reading :: "pylib \<Rightarrow> datetime \<Rightarrow> pyval \<Rightarrow> bool" where
  "newer_reading L cutoff page =
     (case last_edited L page of Some t \<Rightarrow> wall cutoff < wall t | None \<Rightarrow> False)"

definition newer :: "pylib \<Rightarrow> datetime \<Rightarrow> pyval \<Rightarrow> bool" where
  "newer L cutoff page =
     (if map_option fst (aware cutoff) = Some (ZoneInfo (local_timezone L))
      then newer_reading L cutoff page else newer_instant L cutoff page)"

definition descending :: "pylib \<Rightarrow> pyval list \<Rightarrow> bool" where
  "descending L pages =
     sorted_wrt (\<lambda>p q. case (last_edited L p, last_edited L q) of
                          (Some t, Some u) \<Rightarrow> instant u \<le> instant t
                        | _ \<Rightarrow> False) pages"

text \<open>A page with its timestamp; a stream of three pages, edited at midnight UTC on three
  successive days; the library in the zone America/New_York around the end of daylight
  time on 2024-11-03, when the offset goes from four hours to five at 06:00 UTC and the
  readings from 01:00 to 02:00 come twice; and a stream of one page edited at 05:30 UTC on
  that day.\<close>

definition edited_on :: "string \<Rightarrow> string \<Rightarrow> pyval" where
  "edited_on i stamp =
     PDict [(PStr ''id'', PStr i), (PStr ''last_edited_time'', PStr stamp)]"

definition found :: "pydict \<Rightarrow> pyval list" where
  "found payload = [edited_on ''a'' ''2024-01-03T00:00:00.000Z'',
                    edited_on ''b'' ''2024-01-02T00:00:00.000Z'',
                    edited_on ''c'' ''2024-01-01T00:00:00.000Z'']"

definition new_york :: pylib where
  "new_york = shanghai
     \<lparr>local_timezone := ''America/New_York'',
      local_utcoffset := (\<lambda>instant. if instant < 63866210400000000
                                      then - 14400000000 else - 18000000000),
      ambiguous := (\<lambda>key reading. key = ''America/New_York''
                      \<and> 63866192400000000 \<le> reading \<and> reading < 63866196000000000)\<rparr>"

definition found_at_fold :: "pydict \<Rightarrow> pyval list" where
  "found_at_fold payload = [edited_on ''a'' ''2024-11-03T05:30:00.000Z'']"

text \<open>A history of accesses and builder calls.\<close>

fun run_ops :: "manager_op list \<Rightarrow> manager list \<Rightarrow> manager list" where
  "run_ops [] h = h"
| "run_ops (op # ops) h = run_ops ops (run_op op h)"

section \<open>Properties\<close>

subsection \<open>Evaluation and helper lemmas\<close>

lemmas library_defs =
  parse_date_def number_def digit_value_def days_in_month_def is_leap_def ymd2ord_def
  days_before_month_def ord2ymd_def parse_offset_def parse_datetime_def pad_def
  format_date_def format_offset_def format_datetime_def shanghai_def astimezone_def
  in_range_def utcoffset_def Let_def

lemma dump_loop_other_attr:
  "key \<notin> fst ` set ps \<Longrightarrow>
     dump_loop L c (self(key := v)) ex ps data = dump_loop L c self ex ps data"
  by (induction ps arbitrary: data) auto

lemma read_only_not_dumped:
  assumes "distinct (map fst (properties c))" and "(key, define) \<in> set (properties c)"
    and "kind define = ReadOnly"
  shows "key \<notin> fst ` set (properties_define c)"
proof
  assume "key \<in> fst ` set (properties_define c)"
  then obtain d where d: "(key, d) \<in> set (properties c)" "kind d \<noteq> ReadOnly"
    by (auto simp: properties_define_def)
  from assms(1) d(1) assms(2) have "d = define" by (rule eq_key_imp_eq_value)
  with d(2) assms(3) show False by simp
qed

lemma dump_loop_keys:
  "dump_loop L c self ex ps data = Inr out \<Longrightarrow>
     fst ` set out = fst ` set data \<union>
       {PStr (remote_name key define) | key define.
          (key, define) \<in> set ps \<and> \<not> (ex \<and> key \<in> set (unique_keys c)) \<and> self key \<noteq> PNone}"
proof (induction ps arbitrary: data)
  case Nil
  then show ?case by simp
next
  case (Cons p ps)
  obtain key dfn where p: "p = (key, dfn)" by (cases p)
  show ?case
  proof (cases "ex \<and> key \<in> set (unique_keys c)")
    case True
    with Cons.prems p have "dump_loop L c self ex ps data = Inr out" by simp
    from Cons.IH [OF this] True p show ?thesis by auto
  next
    case False
    show ?thesis
    proof (cases "self key = PNone")
      case True
      with False Cons.prems p have "dump_loop L c self ex ps data = Inr out" by auto
      from Cons.IH [OF this] True p show ?thesis by auto
    next
      case nonnull: False
      with False Cons.prems p obtain v where
        v: "dump L (kind dfn) (self key) = Inr v"
        and rest: "dump_loop L c self ex ps (AList.update (PStr (remote_name key dfn)) v data) = Inr out"
        by (cases "dump L (kind dfn) (self key)") auto
      from Cons.IH [OF rest] have
        "fst ` set out = insert (PStr (remote_name key dfn)) (fst ` set data) \<union>
           {PStr (remote_name key define) | key define.
              (key, define) \<in> set ps \<and> \<not> (ex \<and> key \<in> set (unique_keys c)) \<and> self key \<noteq> PNone}"
        by (simp add: dom_update)
      with False nonnull p show ?thesis by auto
    qed
  qed
qed

subsection \<open>Read-only properties\<close>

text \<open>
  C6. For a read-only descriptor \<open>dump_value\<close> gives \<open>None\<close> whatever the value, and
  what \<open>__dump_properties\<close> produces for a write (the payload, or the error of another
  field) is the same whatever value the read-only attribute holds: assigning it changes no
  write and raises nothing. The attribute names of a class are distinct.
\<close>

theorem read_only_encode_omits:
  assumes "distinct (map fst (properties c))" and "(key, define) \<in> set (properties c)"
    and "kind define = ReadOnly"
  shows "dump_value L (kind define) v = Inr PNone \<and>
         dump_properties L c (self(key := v)) exclude = dump_properties L c self exclude"
proof
  from assms(3) show "dump_value L (kind define) v = Inr PNone" by simp
next
  have "key \<notin> fst ` set (properties_define c)" using assms by (rule read_only_not_dumped)
  then show "dump_properties L c (self(key := v)) exclude = dump_properties L c self exclude"
    unfolding dump_properties_def by (rule dump_loop_other_attr)
qed

theorem read_only_encode_omits_witness:
  "dump_value shanghai ReadOnly (PStr ''2024-01-01'') = Inr PNone \<and>
   dump_properties shanghai crm (ann(''created'' := PStr ''2024-01-01'')) False =
     Inr [(PStr ''Email'', PDict [(PStr ''email'', PStr ''a@x.com'')]),
          (PStr ''title'', PDict [(PStr ''title'',
             PList [PDict [(PStr ''text'', PDict [(PStr ''content'', PStr ''Ann'')])]])])]"
  using read_only_encode_omits [of crm "''created''" "Property ReadOnly None" shanghai
      "PStr ''2024-01-01''" ann False]
  by (simp add: crm_def ann_def dump_properties_def properties_define_def remote_name_def)

subsection \<open>The payload of an update\<close>

text \<open>
  C3. When \<open>update()\<close> runs on an instance with an identifier and the fields encode, it
  makes one call, \<open>pages.update\<close>, and the keys of the properties it sends are exactly the
  remote names of the declared fields that are not read-only, not in \<open>unique_keys\<close> and not
  \<open>None\<close>; where distinct fields have distinct remote names, no uniqueness field's name is
  among them.
\<close>

theorem update_payload:
  assumes "truthy (self ''id'')" and "dump_properties L c self True = Inr props"
  shows "after (update R L c self w) = 
           \<lparr>store = snd (pages_update R (store w) [(PStr ''page_id'', self ''id''), (PStr ''properties'', PDict props)]),
            calls = calls w @ [PagesUpdate [(PStr ''page_id'', self ''id''), (PStr ''properties'', PDict props)]]\<rparr>
         \<and> fst ` set props =
             {PStr (remote_name key define) | key define.
                (key, define) \<in> set (properties c) \<and> kind define \<noteq> ReadOnly
                \<and> key \<notin> set (unique_keys c) \<and> self key \<noteq> PNone}
         \<and> (inj_on (\<lambda>(key, define). remote_name key define) (set (properties c)) \<longrightarrow>
              (\<forall>(key, define) \<in> set (properties c).
                 key \<in> set (unique_keys c) \<longrightarrow> PStr (remote_name key define) \<notin> fst ` set props))"
proof -
  have keys: "fst ` set props =
             {PStr (remote_name key define) | key define.
                (key, define) \<in> set (properties c) \<and> kind define \<noteq> ReadOnly
                \<and> key \<notin> set (unique_keys c) \<and> self key \<noteq> PNone}"
    using dump_loop_keys [of L c self True "properties_define c" "[]" props] assms(2)
    by (auto simp: dump_properties_def properties_define_def)
  have sent: "after (update R L c self w) = 
           \<lparr>store = snd (pages_update R (store w) [(PStr ''page_id'', self ''id''), (PStr ''properties'', PDict props)]),
            calls = calls w @ [PagesUpdate [(PStr ''page_id'', self ''id''), (PStr ''properties'', PDict props)]]\<rparr>"
    using assms by (simp add: update_def Let_def split: prod.splits)
  have absent: "PStr (remote_name key dfn) \<notin> fst ` set props"
    if inj: "inj_on (\<lambda>(key, define). remote_name key define) (set (properties c))"
      and mem: "(key, dfn) \<in> set (properties c)" and uniq: "key \<in> set (unique_keys c)" for key dfn
  proof
    assume "PStr (remote_name key dfn) \<in> fst ` set props"
    with keys obtain k d where kd: "remote_name key dfn = remote_name k d" "(k, d) \<in> set (properties c)"
      "k \<notin> set (unique_keys c)" by auto
    from kd(1) have "(\<lambda>(key, define). remote_name key define) (key, dfn)
        = (\<lambda>(key, define). remote_name key define) (k, d)" by simp
    from inj this mem kd(2) have "(key, dfn) = (k, d)" by (rule inj_onD)
    with kd(3) uniq show False by simp
  qed
  from sent keys absent show ?thesis by blast
qed

theorem update_payload_witness:
  "after (update notion shanghai crm (ann(''id'' := PStr ''p1'')) start) =
     \<lparr>store = (), calls = [PagesUpdate [(PStr ''page_id'', PStr ''p1''),
        (PStr ''properties'', PDict [(PStr ''title'', PDict [(PStr ''title'',
             PList [PDict [(PStr ''text'', PDict [(PStr ''content'', PStr ''Ann'')])]])])])]]\<rparr>
   \<and> PStr ''Email'' \<notin> fst ` set [(PStr ''title'', PDict [(PStr ''title'',
             PList [PDict [(PStr ''text'', PDict [(PStr ''content'', PStr ''Ann'')])]])])]"
proof -
  let ?props = "[(PStr ''title'', PDict [(PStr ''title'',
             PList [PDict [(PStr ''text'', PDict [(PStr ''content'', PStr ''Ann'')])]])])]"
  have id: "truthy ((ann(''id'' := PStr ''p1'')) ''id'')" by simp
  have enc: "dump_properties shanghai crm (ann(''id'' := PStr ''p1'')) True = Inr ?props"
    by (simp add: crm_def ann_def dump_properties_def properties_define_def remote_name_def)
  have inj: "inj_on (\<lambda>(key, define). remote_name key define) (set (properties crm))"
    by (simp add: crm_def remote_name_def)
  note payload = update_payload [OF id enc, of notion start]
  from payload have sent: "after (update notion shanghai crm (ann(''id'' := PStr ''p1'')) start) =
     \<lparr>store = (), calls = [PagesUpdate [(PStr ''page_id'', PStr ''p1''),
        (PStr ''properties'', PDict ?props)]]\<rparr>"
    by (simp add: start_def)
  from payload inj have "\<forall>(key, define) \<in> set (properties crm).
      key \<in> set (unique_keys crm) \<longrightarrow> PStr (remote_name key define) \<notin> fst ` set ?props"
    by blast
  then have "PStr ''Email'' \<notin> fst ` set ?props" by (simp add: crm_def remote_name_def)
  with sent show ?thesis by simp
qed

subsection \<open>Saving with uniqueness keys\<close>

lemmas orm_defs =
  save_def create_def update_def upsert_def unique_filter_def filter_value_def
  base_filter_value_def Manager_query_def Manager_filter_def Manager_init_def query_kwargs_def
  dump_properties_def properties_define_def remote_name_def load_properties_def Model_init_def
  unique_query_def Let_def

lemma crm_filter: "unique_filter shanghai crm ann = Inr email_filter"
  by (simp add: orm_defs crm_def ann_def email_filter_def)

lemma crm_query:
  "Manager_query notion shanghai (Manager_filter (Manager_init crm) email_filter) start =
     (Inr [], crm, start\<lparr>calls := calls start @ [DatabasesQuery (unique_query crm email_filter)]\<rparr>)"
  by (simp add: orm_defs notion_def start_def)

lemma Manager_query_world:
  "Manager_query R L m w = (r, c', w') \<Longrightarrow>
     w' = w\<lparr>calls := calls w @ [DatabasesQuery (query_kwargs m)]\<rparr>"
  by (auto simp: Manager_query_def Let_def split: prod.splits)

lemma ebind_cons_nonempty: "ebind r (\<lambda>results. Inr (obj # results)) \<noteq> Inr []"
  by (cases r) auto

lemma query_loop_none: "query_loop L rel c pages = (Inr [], c') \<Longrightarrow> pages = [] \<and> c' = c"
proof (cases pages)
  case Nil
  assume "query_loop L rel c pages = (Inr [], c')"
  with Nil show ?thesis by simp
next
  case (Cons page rest)
  assume "query_loop L rel c pages = (Inr [], c')"
  with Cons have False
    by (auto simp: ebind_cons_nonempty split: sum.splits prod.splits)
  then show ?thesis ..
qed

lemma Manager_query_none:
  assumes "Manager_query R L m w = (Inr [], c', w')"
  shows "databases_query R (store w) (query_kwargs m) = [] \<and> c' = model m"
  using assms query_loop_none [of L "related R (store w)" "model m" "databases_query R (store w) (query_kwargs m)" c']
  by (auto simp: Manager_query_def Let_def split: prod.splits)

text \<open>
  C1 (as the code has it). For an instance without an identifier whose type declares
  uniqueness keys, once the filter is built \<open>save()\<close> queries the collection with it
  before any other call. If the query returns a record, \<open>save()\<close> raises the integrity
  error and the query is the only call made. If it returns none and the fields encode,
  \<open>save()\<close> makes one more call, the create, and when the response carries an
  identifier the instance holds it afterwards.
\<close>

theorem save_unique_check:
  assumes noid: "\<not> truthy (self ''id'')" and keys: "unique_keys c \<noteq> []"
    and flt: "unique_filter L c self = Inr flt"
    and qry: "Manager_query R L (Manager_filter (Manager_init c) flt) w = (Inr objs, c', w')"
  shows "w' = w\<lparr>calls := calls w @ [DatabasesQuery (unique_query c flt)]\<rparr>
       \<and> (objs \<noteq> [] \<longrightarrow>
            save R L c self w = \<lparr>raised = Some IntegrityError, inst = self, klass = c', after = w'\<rparr>)
       \<and> (objs = [] \<longrightarrow>
            (\<forall>props. dump_properties L c self False = Inr props \<longrightarrow>
               (let kwargs = [(PStr ''parent'', PDict [(PStr ''database_id'', PStr (database_id c))]),
                              (PStr ''properties'', PDict props), (PStr ''children'', PList [])];
                    response = fst (pages_create R (store w) kwargs)
                in after (save R L c self w) =
                     \<lparr>store = snd (pages_create R (store w) kwargs),
                      calls = calls w @ [DatabasesQuery (unique_query c flt), PagesCreate kwargs]\<rparr>
                   \<and> (\<forall>i. py_item response ''id'' = Inr i \<longrightarrow>
                         raised (save R L c self w) = None
                         \<and> inst (save R L c self w) = self(''id'' := i))))
            \<and> (\<forall>e. dump_properties L c self False = Inl e \<longrightarrow>
                  save R L c self w = \<lparr>raised = Some e, inst = self, klass = c, after = w'\<rparr>))"
proof -
  have w': "w' = w\<lparr>calls := calls w @ [DatabasesQuery (unique_query c flt)]\<rparr>"
    using Manager_query_world [OF qry] by (simp add: unique_query_def)
  have dup: "save R L c self w = \<lparr>raised = Some IntegrityError, inst = self, klass = c', after = w'\<rparr>"
    if "objs \<noteq> []"
    using that noid keys flt qry by (simp add: save_def)
  have same: "c' = c" if "objs = []"
    using that qry Manager_query_none [of R L "Manager_filter (Manager_init c) flt" w c' w']
    by (simp add: Manager_filter_def Manager_init_def)
  have new: "save R L c self w = create R L c self w'" if "objs = []"
    using that noid keys flt qry same by (simp add: save_def)
  have made: "let kwargs = [(PStr ''parent'', PDict [(PStr ''database_id'', PStr (database_id c))]),
                              (PStr ''properties'', PDict props), (PStr ''children'', PList [])];
                    response = fst (pages_create R (store w) kwargs)
                in after (save R L c self w) =
                     \<lparr>store = snd (pages_create R (store w) kwargs),
                      calls = calls w @ [DatabasesQuery (unique_query c flt), PagesCreate kwargs]\<rparr>
                   \<and> (\<forall>i. py_item response ''id'' = Inr i \<longrightarrow>
                         raised (save R L c self w) = None
                         \<and> inst (save R L c self w) = self(''id'' := i))"
    if "objs = []" and "dump_properties L c self False = Inr props" for props
    using that(2) by (auto simp: new [OF that(1)] create_def w' Let_def split: prod.splits sum.splits)
  have failed: "save R L c self w = \<lparr>raised = Some e, inst = self, klass = c, after = w'\<rparr>"
    if "objs = []" and "dump_properties L c self False = Inl e" for e
    using that(2) by (simp add: new [OF that(1)] create_def)
  from w' dup made failed show ?thesis by blast
qed


theorem save_unique_check_witness:
  "raised (save notion shanghai crm ann start) = None
   \<and> inst (save notion shanghai crm ann start) ''id'' = PStr ''p1''
   \<and> calls (after (save notion shanghai crm ann start)) =
       [DatabasesQuery [(PStr ''database_id'', PStr ''db''), (PStr ''filter'', email_filter)],
        PagesCreate [(PStr ''parent'', PDict [(PStr ''database_id'', PStr ''db'')]),
          (PStr ''properties'', PDict
            [(PStr ''Email'', PDict [(PStr ''email'', PStr ''a@x.com'')]),
             (PStr ''title'', PDict [(PStr ''title'',
                PList [PDict [(PStr ''text'', PDict [(PStr ''content'', PStr ''Ann'')])]])])]),
          (PStr ''children'', PList [])]]"
proof -
  let ?props = "[(PStr ''Email'', PDict [(PStr ''email'', PStr ''a@x.com'')]),
             (PStr ''title'', PDict [(PStr ''title'',
                PList [PDict [(PStr ''text'', PDict [(PStr ''content'', PStr ''Ann'')])]])])]"
  have noid: "\<not> truthy (ann ''id'')" by (simp add: ann_def)
  have keys: "unique_keys crm \<noteq> []" by (simp add: crm_def)
  have enc: "dump_properties shanghai crm ann False = Inr ?props"
    by (simp add: orm_defs crm_def ann_def)
  have q: "unique_query crm email_filter =
      [(PStr ''database_id'', PStr ''db''), (PStr ''filter'', email_filter)]"
    by (simp add: orm_defs crm_def email_filter_def)
  from save_unique_check [OF noid keys crm_filter crm_query] enc
  have "let kwargs = [(PStr ''parent'', PDict [(PStr ''database_id'', PStr (database_id crm))]),
                      (PStr ''properties'', PDict ?props), (PStr ''children'', PList [])];
            response = fst (pages_create notion (store start) kwargs)
        in after (save notion shanghai crm ann start) =
             \<lparr>store = snd (pages_create notion (store start) kwargs),
              calls = calls start @ [DatabasesQuery (unique_query crm email_filter), PagesCreate kwargs]\<rparr>
           \<and> (\<forall>i. py_item response ''id'' = Inr i \<longrightarrow>
                 raised (save notion shanghai crm ann start) = None
                 \<and> inst (save notion shanghai crm ann start) = ann(''id'' := i))"
    by blast
  moreover have "database_id crm = ''db''" by (simp add: crm_def)
  ultimately show ?thesis by (simp add: Let_def q notion_def start_def)
qed

theorem save_unencodable_counterexample:
  "\<not> truthy (bob ''id'') \<and> unique_keys crm \<noteq> []
   \<and> databases_query notion () (unique_query crm email_filter) = []
   \<and> raised (save notion shanghai crm bob start) = Some ValueError
   \<and> calls (after (save notion shanghai crm bob start)) =
       [DatabasesQuery [(PStr ''database_id'', PStr ''db''), (PStr ''filter'', email_filter)]]"
  by (simp add: orm_defs crm_def ann_def bob_def notion_def start_def email_filter_def)

lemma save_duplicate_example:
  "raised (save crowded shanghai crm ann start) = Some IntegrityError
   \<and> after (save crowded shanghai crm ann start) =
       \<lparr>store = (), calls = [DatabasesQuery [(PStr ''database_id'', PStr ''db''), (PStr ''filter'', email_filter)]]\<rparr>"
  by (simp add: orm_defs crm_def ann_def crowded_def notion_def start_def email_filter_def
      convert_data.simps has_key_def)


subsection \<open>Upsert\<close>

lemma update_same_effect:
  "store w1 = store w2 \<Longrightarrow> filter is_mutation (calls w1) = filter is_mutation (calls w2) \<Longrightarrow>
     same_effect (update R L c self w1) (update R L c self w2)"
  by (auto simp: update_def same_effect_def Let_def split: sum.splits prod.splits)

lemma create_same_effect:
  "store w1 = store w2 \<Longrightarrow> filter is_mutation (calls w1) = filter is_mutation (calls w2) \<Longrightarrow>
     same_effect (create R L c self w1) (create R L c self w2)"
  by (auto simp: create_def same_effect_def Let_def split: sum.splits prod.splits)

lemma save_after_empty_query:
  assumes keys: "unique_keys c \<noteq> []" and flt: "unique_filter L c self = Inr flt"
    and qry: "Manager_query R L (Manager_filter (Manager_init c) flt) w = (Inr [], c', w')"
  shows "same_effect (save R L c self w') (save R L c self w)"
proof (cases "truthy (self ''id'')")
  case True
  have "store w' = store w" "filter is_mutation (calls w') = filter is_mutation (calls w)"
    using Manager_query_world [OF qry] by simp_all
  then have "same_effect (update R L c self w') (update R L c self w)" by (rule update_same_effect)
  with True show ?thesis by (simp add: save_def)
next
  case False
  let ?m = "Manager_filter (Manager_init c) flt"
  let ?q = "DatabasesQuery (query_kwargs ?m)"
  from Manager_query_none [OF qry] have none: "databases_query R (store w) (query_kwargs ?m) = []"
    and c': "c' = c" by (simp_all add: Manager_filter_def Manager_init_def)
  have w': "w' = w\<lparr>calls := calls w @ [?q]\<rparr>" using Manager_query_world [OF qry] .
  have again: "Manager_query R L ?m w' = (Inr [], c, w'\<lparr>calls := calls w' @ [?q]\<rparr>)"
    using none by (simp add: Manager_query_def Let_def w' Manager_filter_def Manager_init_def)
  have first: "save R L c self w = create R L c self w'"
    using False keys flt qry c' by (simp add: save_def)
  have second: "save R L c self w' = create R L c self (w'\<lparr>calls := calls w' @ [?q]\<rparr>)"
    using False keys flt again by (simp add: save_def)
  have "same_effect (create R L c self (w'\<lparr>calls := calls w' @ [?q]\<rparr>)) (create R L c self w')"
    by (rule create_same_effect) simp_all
  with first second show ?thesis by simp
qed

text \<open>
  C2 (as the code has it). Without uniqueness keys \<open>upsert()\<close> is \<open>save()\<close>. With keys,
  once the filter is built and the query has returned: with no match \<open>upsert()\<close> goes on
  as \<open>save()\<close>, which ends as \<open>save()\<close> alone would, with the same calls that change
  the store; with one match it takes that record's identifier and goes on as
  \<open>update()\<close>; with two or more it raises \<open>ValueError\<close> and the query is the only call
  made.
\<close>

theorem upsert_cases:
  "(unique_keys c = [] \<longrightarrow> upsert R L c self w = save R L c self w)
   \<and> (unique_keys c \<noteq> [] \<longrightarrow>
        (\<forall>flt objs c' w'.
           unique_filter L c self = Inr flt \<longrightarrow>
           Manager_query R L (Manager_filter (Manager_init c) flt) w = (Inr objs, c', w') \<longrightarrow>
             w' = w\<lparr>calls := calls w @ [DatabasesQuery (unique_query c flt)]\<rparr>
             \<and> (length objs = 0 \<longrightarrow>
                  upsert R L c self w = save R L c self w'
                  \<and> same_effect (upsert R L c self w) (save R L c self w))
             \<and> (length objs = 1 \<longrightarrow>
                  upsert R L c self w = update R L c' (self(''id'' := (hd objs) ''id'')) w')
             \<and> (2 \<le> length objs \<longrightarrow>
                  upsert R L c self w =
                    \<lparr>raised = Some ValueError, inst = self, klass = c', after = w'\<rparr>)))"
proof (intro conjI impI allI)
  assume "unique_keys c = []"
  then show "upsert R L c self w = save R L c self w" by (simp add: upsert_def)
next
  fix flt objs c' w'
  assume keys: "unique_keys c \<noteq> []" and flt: "unique_filter L c self = Inr flt"
    and qry: "Manager_query R L (Manager_filter (Manager_init c) flt) w = (Inr objs, c', w')"
  show "w' = w\<lparr>calls := calls w @ [DatabasesQuery (unique_query c flt)]\<rparr>"
    using Manager_query_world [OF qry] by (simp add: unique_query_def)
  {
    assume none: "length objs = 0"
    with qry have qry0: "Manager_query R L (Manager_filter (Manager_init c) flt) w = (Inr [], c', w')"
      by simp
    from Manager_query_none [OF qry0] have c': "c' = c"
      by (simp add: Manager_filter_def Manager_init_def)
    from keys flt qry none show zero: "upsert R L c self w = save R L c self w'"
      by (simp add: upsert_def c')
    from save_after_empty_query [OF keys flt qry0] zero
    show "same_effect (upsert R L c self w) (save R L c self w)" by simp
  }
  {
    assume "length objs = 1"
    with keys flt qry show "upsert R L c self w = update R L c' (self(''id'' := (hd objs) ''id'')) w'"
      by (simp add: upsert_def)
  }
  {
    assume "2 \<le> length objs"
    then have "objs \<noteq> []" "length objs \<noteq> 1" by auto
    with keys flt qry show "upsert R L c self w =
        \<lparr>raised = Some ValueError, inst = self, klass = c', after = w'\<rparr>"
      by (simp add: upsert_def)
  }
qed


theorem upsert_without_keys_counterexample:
  "unique_keys journal = []
   \<and> raised (upsert notion shanghai journal ann start) = None
   \<and> inst (upsert notion shanghai journal ann start) ''id'' = PStr ''p1''
   \<and> calls (after (upsert notion shanghai journal ann start)) =
       [PagesCreate [(PStr ''parent'', PDict [(PStr ''database_id'', PStr ''db2'')]),
          (PStr ''properties'', PDict [(PStr ''title'', PDict [(PStr ''title'',
                PList [PDict [(PStr ''text'', PDict [(PStr ''content'', PStr ''Ann'')])]])])]),
          (PStr ''children'', PList [])]]"
  by (simp add: orm_defs journal_def ann_def notion_def start_def)

theorem upsert_cases_witness:
  "upsert notion shanghai crm ann start =
     save notion shanghai crm ann
       (start\<lparr>calls := calls start @ [DatabasesQuery (unique_query crm email_filter)]\<rparr>)
   \<and> same_effect (upsert notion shanghai crm ann start) (save notion shanghai crm ann start)"
proof -
  have keys: "unique_keys crm \<noteq> []" by (simp add: crm_def)
  have "length ([] :: model_instance list) = 0" by simp
  with upsert_cases [of crm notion shanghai ann start] keys crm_filter crm_query
  show ?thesis by blast
qed

lemma upsert_ambiguous_example:
  "raised (upsert crowded shanghai crm ann start) = Some ValueError
   \<and> inst (upsert crowded shanghai crm ann start) ''id'' = PNone
   \<and> after (upsert crowded shanghai crm ann start) =
       \<lparr>store = (), calls = [DatabasesQuery [(PStr ''database_id'', PStr ''db''), (PStr ''filter'', email_filter)]]\<rparr>"
  by (simp add: orm_defs crm_def ann_def crowded_def notion_def start_def email_filter_def
      convert_data.simps has_key_def)

subsection \<open>Synced blocks\<close>

lemma skipped_synced:
  "skipped (PBool True) (synced i synced_from) = Inr (\<not> truthy synced_from)"
  by (simp add: skipped_def synced_def)

text \<open>
  C8 (the code on a mirror and on an origin). With exclusion on, \<open>list_page_blocks\<close>
  yields a synced block that mirrors another block after yielding its child, and skips a
  synced block that is the origin together with its child: the test is
  \<open>not block['synced_block']['synced_from']\<close>, which holds for the origin, while the
  comment above it says that blocks synced from elsewhere are skipped and the page's own
  synced blocks are not.
\<close>

theorem list_page_blocks_synced:
  "list_page_blocks (PBool True) (PInt 100) [mirror]
     = ([paragraph_block ''c1'' ''copy'', content mirror], None)
   \<and> list_page_blocks (PBool True) (PInt 100) [origin] = ([], None)"
  by (simp add: mirror_def origin_def synced_def paragraph_block_def descends_def skipped_def yield_def)

subsection \<open>Date and time literals\<close>

text \<open>
  C4. \<open>_str_to_datetime\<close> on a string tries the first format first: when it reads the
  string, the result is that datetime in the local zone, or the \<open>OverflowError\<close> of the
  conversion when the instant leaves the years a datetime has. When the first format fails
  and the second reads the string, the result is the bare date. The \<open>ValueError\<close> is
  raised exactly when both formats fail, and nothing else is raised but the
  \<open>OverflowError\<close> of a string the first format reads.
\<close>

theorem str_to_datetime_formats:
  "(\<forall>p t. strptime_datetime L s = Some p \<and> astimezone L p = Inr t \<longrightarrow>
        str_to_datetime L (PStr s) = Inr (PDateTime t))
   \<and> (\<forall>p e. strptime_datetime L s = Some p \<and> astimezone L p = Inl e \<longrightarrow>
        e = OverflowError \<and> str_to_datetime L (PStr s) = Inl OverflowError)
   \<and> (\<forall>d. strptime_datetime L s = None \<and> strptime_date L s = Some d \<longrightarrow>
        str_to_datetime L (PStr s) = Inr (PDate d))
   \<and> (str_to_datetime L (PStr s) = Inl ValueError \<longleftrightarrow>
        strptime_datetime L s = None \<and> strptime_date L s = None)
   \<and> (\<forall>e. str_to_datetime L (PStr s) = Inl e \<longrightarrow>
        e = ValueError \<or> e = OverflowError \<and> strptime_datetime L s \<noteq> None)"
proof -
  have overflow: "e = OverflowError" if "astimezone L p = Inl e" for p e
    using that by (simp add: astimezone_def Let_def split: if_splits)
  show ?thesis
  proof (cases "strptime_datetime L s")
    case None
    then show ?thesis by (cases "strptime_date L s") auto
  next
    case (Some p)
    show ?thesis
    proof (cases "astimezone L p")
      case (Inl e)
      with Some overflow [of p e] show ?thesis by auto
    next
      case (Inr t)
      with Some show ?thesis by auto
    qed
  qed
qed

theorem str_to_datetime_formats_witness:
  "str_to_datetime shanghai (PStr ''2024-01-01T10:00:00.000000+08:00'')
     = Inr (PDateTime (DateTime 63839700000000000 (Some (ZoneInfo ''Asia/Shanghai'', 28800000000))))
   \<and> str_to_datetime shanghai (PStr ''0001-01-01T00:00:00.000+08:00'') = Inl OverflowError
   \<and> str_to_datetime shanghai (PStr ''2024-01-01'') = Inr (PDate 738886)
   \<and> str_to_datetime shanghai (PStr ''2024-13-40'') = Inl ValueError"
proof -
  have dt: "strptime_datetime shanghai ''2024-01-01T10:00:00.000000+08:00''
      = Some (63839700000000000, 28800000000)"
    by (simp add: library_defs)
  have tz: "astimezone shanghai (63839700000000000, 28800000000)
      = Inr (DateTime 63839700000000000 (Some (ZoneInfo ''Asia/Shanghai'', 28800000000)))"
    by (simp add: library_defs)
  have early: "strptime_datetime shanghai ''0001-01-01T00:00:00.000+08:00'' = Some (0, 28800000000)"
    by (simp add: library_defs)
  have out: "astimezone shanghai (0, 28800000000) = Inl OverflowError"
    by (simp add: library_defs)
  have d: "strptime_datetime shanghai ''2024-01-01'' = None
      \<and> strptime_date shanghai ''2024-01-01'' = Some 738886"
    by (simp add: library_defs)
  have bad: "strptime_datetime shanghai ''2024-13-40'' = None
      \<and> strptime_date shanghai ''2024-13-40'' = None"
    by (simp add: library_defs)
  from str_to_datetime_formats [of shanghai "''2024-01-01T10:00:00.000000+08:00''"] dt tz
  have 1: "str_to_datetime shanghai (PStr ''2024-01-01T10:00:00.000000+08:00'')
     = Inr (PDateTime (DateTime 63839700000000000 (Some (ZoneInfo ''Asia/Shanghai'', 28800000000))))"
    by blast
  from str_to_datetime_formats [of shanghai "''0001-01-01T00:00:00.000+08:00''"] early out
  have 2: "str_to_datetime shanghai (PStr ''0001-01-01T00:00:00.000+08:00'') = Inl OverflowError"
    by blast
  from str_to_datetime_formats [of shanghai "''2024-01-01''"] d
  have 3: "str_to_datetime shanghai (PStr ''2024-01-01'') = Inr (PDate 738886)" by blast
  from str_to_datetime_formats [of shanghai "''2024-13-40''"] bad
  have 4: "str_to_datetime shanghai (PStr ''2024-13-40'') = Inl ValueError" by blast
  from 1 2 3 4 show ?thesis by simp
qed

subsection \<open>Decoding what was encoded\<close>

lemma names_back:
  "emap (\<lambda>x. py_item x field) (map (\<lambda>item. PDict [(PStr field, item)]) items) = Inr items"
  by (induction items) simp_all

lemma convert_single:
  "convert_data L (PDict [(PStr ''checkbox'', x)]) = Inr x"
  "convert_data L (PDict [(PStr ''number'', x)]) = Inr x"
  "convert_data L (PDict [(PStr ''multi_select'', v)]) = convert_names (PDict [(PStr ''multi_select'', v)]) ''multi_select'' ''name''"
  "convert_data L (PDict [(PStr ''relation'', v)]) = convert_names (PDict [(PStr ''relation'', v)]) ''relation'' ''id''"
  "convert_data L (PDict [(PStr ''date'', v)]) = convert_date L (PDict [(PStr ''date'', v)])"
  "convert_data L (PDict [(PStr ''title'', v)]) = convert_title (PDict [(PStr ''title'', v)])"
  "convert_data L (PDict [(PStr ''rich_text'', v)]) = convert_rich_text L (PDict [(PStr ''rich_text'', v)])"
  by (simp_all add: convert_data.simps has_key_def)

lemma date_text_str: "date_text L a = Inr t \<Longrightarrow> \<exists>s. t = PStr s"
  by (cases a) auto

lemma range_decode:
  assumes "date_text L a = Inr (PStr sa)" and "date_text L b = Inr (PStr sb)"
  shows "decode_encode L rel (Property Date n) (PList [a, b]) =
           ebind (str_to_datetime L (PStr sa)) (\<lambda>start.
             if sb \<noteq> [] then
               ebind (str_to_datetime L (PStr sb)) (\<lambda>end. Inr (PList [start, end]))
             else Inr (PList [start]))"
  using assms
  by (cases "str_to_datetime L (PStr sa)")
     (simp_all add: decode_encode_def convert_single convert_date_def del: str_to_datetime.simps)

lemma range_round_trip:
  "(\<exists>a' b'. decode_encode L rel (Property Date n) (PList [a, b]) = Inr (PList [a', b'])
             \<and> same_moment L a' a \<and> same_moment L b' b)
   \<longleftrightarrow> reads_back L a \<and> reads_back L b \<and> date_text L b \<noteq> Inr (PStr [])"
proof (cases "date_text L a")
  case (Inl e)
  then show ?thesis by (simp add: decode_encode_def reads_back_def)
next
  case (Inr ta)
  then obtain sa where sa: "date_text L a = Inr (PStr sa)" by (auto dest: date_text_str)
  show ?thesis
  proof (cases "date_text L b")
    case (Inl e)
    with sa show ?thesis by (simp add: decode_encode_def reads_back_def)
  next
    case (Inr tb)
    then obtain sb where sb: "date_text L b = Inr (PStr sb)" by (auto dest: date_text_str)
    note eq = range_decode [OF sa sb, of rel n]
    show ?thesis
    proof (cases "str_to_datetime L (PStr sa)")
      case (Inl e)
      with sa show ?thesis unfolding eq by (simp add: reads_back_def del: str_to_datetime.simps)
    next
      case start: (Inr start)
      show ?thesis
      proof (cases "sb = []")
        case True
        with sa sb start show ?thesis
          unfolding eq by (simp add: reads_back_def del: str_to_datetime.simps)
      next
        case False
        show ?thesis
        proof (cases "str_to_datetime L (PStr sb)")
          case (Inl e)
          with sa sb start False show ?thesis
            unfolding eq by (simp add: reads_back_def del: str_to_datetime.simps)
        next
          case (Inr fin)
          with sa sb start False show ?thesis
            unfolding eq by (simp add: reads_back_def del: str_to_datetime.simps)
        qed
      qed
    qed
  qed
qed

lemma relation_load_is_dict:
  assumes "relation_load L rel m data = Inr v"
  shows "\<exists>d. v = PDict d"
proof (cases "convert_data L data")
  case (Inl e)
  with assms show ?thesis by (simp add: relation_load_def)
next
  case (Inr related_ids)
  show ?thesis
  proof (cases "py_iter related_ids")
    case (Inl e)
    with assms Inr show ?thesis by (simp add: relation_load_def)
  next
    case ids: (Inr ids)
    show ?thesis
    proof (cases "emap (\<lambda>i. ebind (rel m i) (\<lambda>label. Inr (i, label))) ids")
      case (Inl e)
      with assms Inr ids show ?thesis by (simp add: relation_load_def)
    next
      case entries: (Inr entries)
      with assms Inr ids show ?thesis by (auto simp: relation_load_def)
    qed
  qed
qed

text \<open>
  C5 (as the code has it). Writing a value with a descriptor and reading the payload with
  the same descriptor gives the value back for a checkbox, a number and a multi-select
  list. For a date range it gives two ends equal to the ones written exactly when each end
  is equal to what the library reads from the text written for it and the text of the
  second end is not empty; a datetime with a fraction of a second is written with
  \<open>.000\<close> and does not come back. For a title and for rich text, and for a single date or
  datetime whose text the library reads, reading raises \<open>KeyError\<close>. For a relation,
  whatever \<open>RelationProperty.load\<close> returns is a dictionary, never the list written.
\<close>

theorem decode_encode_kinds:
  "decode_encode L rel (Property Checkbox n) x = Inr x
   \<and> decode_encode L rel (Property Number n) x = Inr x
   \<and> decode_encode L rel (Property MultiSelect n) (PList labels) = Inr (PList labels)
   \<and> ((\<exists>a' b'. decode_encode L rel (Property Date n) (PList [a, b]) = Inr (PList [a', b'])
                \<and> same_moment L a' a \<and> same_moment L b' b)
        \<longleftrightarrow> reads_back L a \<and> reads_back L b \<and> date_text L b \<noteq> Inr (PStr []))
   \<and> decode_encode L rel (Property Title n) x = Inl KeyError
   \<and> decode_encode L rel (Property RichText n) x = Inl KeyError
   \<and> (\<forall>s t v. date_text L t = Inr (PStr s) \<and> str_to_datetime L (PStr s) = Inr v \<longrightarrow>
        decode_encode L rel (Property Date n) (PList [t]) = Inl KeyError
        \<and> (\<forall>d. t = PDateTime d \<longrightarrow> decode_encode L rel (Property Date n) t = Inl KeyError))
   \<and> (\<forall>v. decode_encode L rel (Property (Relation m) n) (PList ids) = Inr v \<longrightarrow>
        (\<exists>d. v = PDict d) \<and> v \<noteq> PList ids)"
proof (intro conjI allI impI)
  show "decode_encode L rel (Property Checkbox n) x = Inr x"
    "decode_encode L rel (Property Number n) x = Inr x"
    by (simp_all add: decode_encode_def convert_single)
  show "decode_encode L rel (Property MultiSelect n) (PList labels) = Inr (PList labels)"
    by (simp add: decode_encode_def convert_single convert_names_def names_back)
  show "decode_encode L rel (Property Title n) x = Inl KeyError"
    by (simp add: decode_encode_def convert_single convert_title_def)
  show "decode_encode L rel (Property RichText n) x = Inl KeyError"
    by (simp add: decode_encode_def convert_single convert_rich_text_def)
  show "(\<exists>a' b'. decode_encode L rel (Property Date n) (PList [a, b]) = Inr (PList [a', b'])
                \<and> same_moment L a' a \<and> same_moment L b' b)
        \<longleftrightarrow> reads_back L a \<and> reads_back L b \<and> date_text L b \<noteq> Inr (PStr [])"
    by (rule range_round_trip)
next
  fix s t v
  assume st: "date_text L t = Inr (PStr s) \<and> str_to_datetime L (PStr s) = Inr v"
  then show "decode_encode L rel (Property Date n) (PList [t]) = Inl KeyError"
    by (simp add: decode_encode_def convert_single convert_date_def del: str_to_datetime.simps)
  fix d assume "t = PDateTime d"
  with st show "decode_encode L rel (Property Date n) t = Inl KeyError"
    by (simp add: decode_encode_def convert_single convert_date_def del: str_to_datetime.simps)
next
  fix v
  assume v: "decode_encode L rel (Property (Relation m) n) (PList ids) = Inr v"
  then have "relation_load L rel m
      (PDict [(PStr ''relation'', PList (map (\<lambda>i. PDict [(PStr ''id'', i)]) ids))]) = Inr v"
    by (simp add: decode_encode_def)
  then show "\<exists>d. v = PDict d" by (rule relation_load_is_dict)
  then show "v \<noteq> PList ids" by auto
qed

lemma evening_text: "date_text shanghai evening = Inr (PStr ''2024-01-01T18:00:00.000+0800'')"
  by (simp add: evening_def library_defs)

lemma morning_text: "date_text shanghai morning_utc = Inr (PStr ''2024-01-01T10:00:00.000+0000'')"
  by (simp add: morning_utc_def library_defs)

lemma bit_text: "date_text shanghai evening_and_a_bit = Inr (PStr ''2024-01-01T18:00:00.000+0800'')"
  by (simp add: evening_and_a_bit_def library_defs)

lemma evening_back: "str_to_datetime shanghai (PStr ''2024-01-01T18:00:00.000+0800'') = Inr evening"
  by (simp add: evening_def library_defs)

lemma morning_back: "str_to_datetime shanghai (PStr ''2024-01-01T10:00:00.000+0000'') = Inr evening"
  by (simp add: evening_def library_defs)

lemma new_year_text: "date_text shanghai (PDate 738886) = Inr (PStr ''2024-01-01'')"
  by (simp add: library_defs)

lemma new_year_back: "str_to_datetime shanghai (PStr ''2024-01-01'') = Inr (PDate 738886)"
  by (simp add: library_defs)

lemma morning_reads_back: "reads_back shanghai morning_utc"
proof -
  have "ebind (date_text shanghai morning_utc) (str_to_datetime shanghai) = Inr evening"
    unfolding morning_text by (simp add: morning_back del: str_to_datetime.simps)
  moreover have "same_moment shanghai evening morning_utc"
    by (simp add: evening_def morning_utc_def fold_dependent_def shanghai_def)
  ultimately show ?thesis unfolding reads_back_def by (simp del: date_text.simps str_to_datetime.simps)
qed

lemma new_year_reads_back: "reads_back shanghai (PDate 738886)"
proof -
  have "ebind (date_text shanghai (PDate 738886)) (str_to_datetime shanghai) = Inr (PDate 738886)"
    unfolding new_year_text by (simp add: new_year_back del: str_to_datetime.simps)
  then show ?thesis unfolding reads_back_def by (simp del: date_text.simps str_to_datetime.simps)
qed

lemma bit_not_read_back: "\<not> reads_back shanghai evening_and_a_bit"
proof -
  have "ebind (date_text shanghai evening_and_a_bit) (str_to_datetime shanghai) = Inr evening"
    unfolding bit_text by (simp add: evening_back del: str_to_datetime.simps)
  moreover have "\<not> same_moment shanghai evening evening_and_a_bit"
    by (simp add: evening_def evening_and_a_bit_def)
  ultimately show ?thesis unfolding reads_back_def by (simp del: date_text.simps str_to_datetime.simps)
qed

theorem decode_encode_kinds_witness:
  "decode_encode shanghai (\<lambda>m i. Inr i) (Property Checkbox None) (PBool True) = Inr (PBool True)
   \<and> decode_encode shanghai (\<lambda>m i. Inr i) (Property MultiSelect None) (PList [PStr ''a'', PStr ''b''])
       = Inr (PList [PStr ''a'', PStr ''b''])
   \<and> (\<exists>a' b'. decode_encode shanghai (\<lambda>m i. Inr i) (Property Date None)
                 (PList [PDate 738886, morning_utc]) = Inr (PList [a', b'])
        \<and> same_moment shanghai a' (PDate 738886) \<and> same_moment shanghai b' morning_utc)
   \<and> decode_encode shanghai (\<lambda>m i. Inr i) (Property Date None) (PList [PDate 738886]) = Inl KeyError"
proof -
  note kinds = decode_encode_kinds [of shanghai "\<lambda>m i. Inr i" None "PBool True"
      "[PStr ''a'', PStr ''b'']" "PDate 738886" morning_utc "''m''" "[]"]
  have nonempty: "date_text shanghai morning_utc \<noteq> Inr (PStr [])" unfolding morning_text by simp
  from kinds new_year_text new_year_back
  have "decode_encode shanghai (\<lambda>m i. Inr i) (Property Date None) (PList [PDate 738886]) = Inl KeyError"
    by blast
  with kinds new_year_reads_back morning_reads_back nonempty show ?thesis by blast
qed

theorem decode_encode_counterexample:
  "decode_encode shanghai (\<lambda>m i. Inr i) (Property Title None) (PStr ''Ann'') = Inl KeyError
   \<and> decode_encode shanghai (\<lambda>m i. Inr i) (Property RichText None) (PStr ''Ann'') = Inl KeyError
   \<and> decode_encode shanghai (\<lambda>m i. Inr i) (Property Date None) (PList [PDate 738886]) = Inl KeyError
   \<and> decode_encode shanghai (\<lambda>m i. Inr i) (Property Date None) evening = Inl KeyError
   \<and> decode_encode shanghai (\<lambda>m i. Inr i) (Property Date None) (PList [PDate 738886, evening_and_a_bit])
       = Inr (PList [PDate 738886, evening])
   \<and> \<not> same_moment shanghai evening evening_and_a_bit
   \<and> decode_encode shanghai (\<lambda>m i. Inr i) (Property (Relation ''people'') None) (PList [PStr ''r1''])
       = Inr (PDict [(PStr ''r1'', PStr ''r1'')])"
proof -
  have "decode_encode shanghai (\<lambda>m i. Inr i) (Property Title None) (PStr ''Ann'') = Inl KeyError"
    by (simp add: decode_encode_def convert_single convert_title_def)
  moreover have "decode_encode shanghai (\<lambda>m i. Inr i) (Property RichText None) (PStr ''Ann'') = Inl KeyError"
    by (simp add: decode_encode_def convert_single convert_rich_text_def)
  moreover have "dump shanghai Date (PList [PDate 738886])
      = Inr (PDict [(PStr ''date'', PDict [(PStr ''start'', PStr ''2024-01-01'')])])"
    using new_year_text by (simp del: date_text.simps)
  then have "decode_encode shanghai (\<lambda>m i. Inr i) (Property Date None) (PList [PDate 738886]) = Inl KeyError"
    by (simp add: decode_encode_def convert_single convert_date_def new_year_back
        del: str_to_datetime.simps)
  moreover have "dump shanghai Date evening
      = Inr (PDict [(PStr ''date'', PDict [(PStr ''start'', PStr ''2024-01-01T18:00:00.000+0800'')])])"
    using evening_text by (simp add: evening_def del: date_text.simps)
  then have "decode_encode shanghai (\<lambda>m i. Inr i) (Property Date None) evening = Inl KeyError"
    by (simp add: decode_encode_def convert_single convert_date_def evening_back
        del: str_to_datetime.simps)
  moreover have "decode_encode shanghai (\<lambda>m i. Inr i) (Property Date None)
        (PList [PDate 738886, evening_and_a_bit]) = Inr (PList [PDate 738886, evening])"
    unfolding range_decode [OF new_year_text bit_text]
    by (simp add: new_year_back evening_back del: str_to_datetime.simps)
  moreover have "\<not> same_moment shanghai evening evening_and_a_bit"
    by (simp add: evening_def evening_and_a_bit_def)
  moreover have "decode_encode shanghai (\<lambda>m i. Inr i) (Property (Relation ''people'') None)
        (PList [PStr ''r1'']) = Inr (PDict [(PStr ''r1'', PStr ''r1'')])"
    by (simp add: decode_encode_def relation_load_def convert_single convert_names_def)
  ultimately show ?thesis by simp
qed

subsection \<open>Table rows\<close>

lemma table_row_dispatch:
  assumes "is_table_row data"
  shows "block_to_text L data table = table_row_text L data table"
proof -
  from assms obtain d where d: "data = PDict d"
    and row: "find (has_key d) block_keys = Some ''table_row''"
    by (cases data) (auto simp: is_table_row_def)
  from row have "\<not> has_key d ''bookmark''" "\<not> has_key d ''bulleted_list_item''"
    "\<not> has_key d ''callout''" "\<not> has_key d ''child_database''" "\<not> has_key d ''child_page''"
    "\<not> has_key d ''code''" "\<not> has_key d ''divider''" "\<not> has_key d ''embed''"
    "\<not> has_key d ''equation''" "\<not> has_key d ''file''" "\<not> has_key d ''heading_1''"
    "\<not> has_key d ''heading_2''" "\<not> has_key d ''heading_3''" "\<not> has_key d ''image''"
    "\<not> has_key d ''numbered_list_item''" "\<not> has_key d ''paragraph''" "\<not> has_key d ''pdf''"
    "\<not> has_key d ''quote''" "has_key d ''table_row''"
    by (simp_all add: block_keys_def split: if_splits)
  then show ?thesis by (simp add: block_to_text_def d)
qed

lemma output_keeps_table:
  "ebind r (\<lambda>output. Inr (output, table, i)) = Inr (out, table', ind) \<Longrightarrow> table' = table"
  by (cases r) auto

lemma other_block_keeps_table:
  assumes "\<not> is_table_row data" and "block_to_text L data table = Inr (out, table', ind)"
  shows "table' = table"
proof (cases data)
  case (PDict d)
  with assms show ?thesis
    by (auto simp: block_to_text_def Let_def is_table_row_def block_keys_def
        split: if_splits dest: output_keeps_table)
next
  case (PList xs)
  with assms(2) show ?thesis
    by (auto simp: block_to_text_def block_nondict_def split: option.splits if_splits)
next
  case (PStr s)
  with assms(2) show ?thesis
    by (auto simp: block_to_text_def block_nondict_def split: option.splits if_splits)
qed (use assms(2) in \<open>simp_all add: block_to_text_def\<close>)

lemma ebind_InrE:
  assumes "ebind m f = Inr y"
  obtains x where "m = Inr x" "f x = Inr y"
  using assms by (cases m) auto

lemma ebind_assoc: "ebind (ebind m f) g = ebind m (\<lambda>x. ebind (f x) g)"
  by (cases m) simp_all

lemma first_row:
  assumes "is_table_row row" and "\<not> truthy table"
    and "block_to_text L row table = Inr (block_text, table', indentation)"
  obtains cells where "cells_text L row = Inr cells"
    "block_text = PStr (row_line cells @ nl @ separator_line cells)"
    "table' = PBool True" "indentation = []"
proof -
  from assms(1,3) have "table_row_text L row table = Inr (block_text, table', indentation)"
    by (simp add: table_row_dispatch)
  with assms(2) that show thesis
    by (auto simp: table_row_text_def elim!: ebind_InrE)
qed

lemma later_row:
  assumes "is_table_row row" and "truthy table"
    and "block_to_text L row table = Inr (block_text, table', indentation)"
  obtains cells where "cells_text L row = Inr cells"
    "block_text = PStr (row_line cells)" "table' = table" "indentation = []"
proof -
  from assms(1,3) have "table_row_text L row table = Inr (block_text, table', indentation)"
    by (simp add: table_row_dispatch)
  with assms(2) that show thesis
    by (auto simp: table_row_text_def elim!: ebind_InrE)
qed

lemma set_table_kept:
  assumes "truthy table" and "block_to_text L b table = Inr (block_text, table', indentation)"
  shows "table' = table"
proof (cases "is_table_row b")
  case True
  from later_row [OF True assms] show ?thesis by blast
next
  case False
  from other_block_keeps_table [OF False assms(2)] show ?thesis .
qed

lemma no_indentation: "concat (replicate n ([] :: string)) = []"
  by (induction n) simp_all

lemma own_text_row:
  "own_text level (PStr (row_line cells @ more_text)) (PBool True) [] = Inr (nl @ row_line cells @ more_text)"
  by (simp add: own_text_def row_line_def no_indentation)

lemma loop_Cons:
  "list_blocks_loop L level (Node b kids # rest) table =
     ebind (block_to_text L b table) (\<lambda>(block_text, table', indentation).
     ebind (own_text level block_text table' indentation) (\<lambda>own.
     ebind (below_text L level b kids) (\<lambda>below.
     ebind (list_blocks_loop L level rest table') (\<lambda>others.
       Inr (own @ below @ others)))))"
  by (simp add: own_text_def below_text_def ebind_assoc)

lemma loop_ConsE:
  assumes "list_blocks_loop L level (Node b kids # rest) table = Inr rendered"
  obtains block_text table' indentation own below others where
    "block_to_text L b table = Inr (block_text, table', indentation)"
    "own_text level block_text table' indentation = Inr own"
    "below_text L level b kids = Inr below"
    "list_blocks_loop L level rest table' = Inr others"
    "rendered = own @ below @ others"
proof -
  from assms obtain out where out: "block_to_text L b table = Inr out"
    and r: "(case out of (block_text, table', indentation) \<Rightarrow>
      ebind (own_text level block_text table' indentation) (\<lambda>own.
      ebind (below_text L level b kids) (\<lambda>below.
      ebind (list_blocks_loop L level rest table') (\<lambda>others.
        Inr (own @ below @ others))))) = Inr rendered"
    unfolding loop_Cons by (rule ebind_InrE)
  obtain block_text table' indentation where o: "out = (block_text, table', indentation)"
    by (cases out)
  from r o obtain own below others where
    "own_text level block_text table' indentation = Inr own"
    "below_text L level b kids = Inr below"
    "list_blocks_loop L level rest table' = Inr others"
    "rendered = own @ below @ others"
    by (auto elim!: ebind_InrE)
  with out o that show thesis by blast
qed

lemma loop_append:
  assumes "\<forall>n \<in> set before. \<forall>out t' i.
      block_to_text L (content n) table = Inr (out, t', i) \<longrightarrow> t' = table"
    and "list_blocks_loop L level (before @ rest) table = Inr rendered"
  shows "\<exists>pre post. list_blocks_loop L level before table = Inr pre
           \<and> list_blocks_loop L level rest table = Inr post \<and> rendered = pre @ post"
  using assms
proof (induction before arbitrary: rendered)
  case Nil
  then show ?case by simp
next
  case (Cons n before)
  obtain b kids where n: "n = Node b kids" by (cases n)
  from Cons.prems(2) n have "list_blocks_loop L level (Node b kids # before @ rest) table = Inr rendered"
    by simp
  then obtain block_text table' indentation own below others where
    out: "block_to_text L b table = Inr (block_text, table', indentation)"
    and own: "own_text level block_text table' indentation = Inr own"
    and below: "below_text L level b kids = Inr below"
    and others: "list_blocks_loop L level (before @ rest) table' = Inr others"
    and rendered: "rendered = own @ below @ others"
    by (rule loop_ConsE)
  from Cons.prems(1) n out have same: "table' = table" by auto
  from Cons.prems(1) have "\<forall>n \<in> set before. \<forall>out t' i.
      block_to_text L (content n) table = Inr (out, t', i) \<longrightarrow> t' = table" by simp
  from Cons.IH [OF this] others same obtain pre post where
    pre: "list_blocks_loop L level before table = Inr pre"
    and post: "list_blocks_loop L level rest table = Inr post" and o: "others = pre @ post"
    by blast
  from out own below pre same
  have "list_blocks_loop L level (n # before) table = Inr (own @ below @ pre)"
    unfolding n loop_Cons by simp
  with post rendered o show ?case by simp
qed

lemma rows_only:
  assumes "\<forall>n \<in> set nodes. is_table_row (content n) \<and> childless (content n)"
    and "list_blocks_loop L level nodes (PBool True) = Inr post"
  shows "\<exists>rows. list_all2 (\<lambda>n cells. cells_text L (content n) = Inr cells) nodes rows
           \<and> post = concat (map (\<lambda>cells. nl @ row_line cells) rows)"
  using assms
proof (induction nodes arbitrary: post)
  case Nil
  then show ?case by simp
next
  case (Cons n nodes)
  obtain b kids where n: "n = Node b kids" by (cases n)
  from Cons.prems(2) n have "list_blocks_loop L level (Node b kids # nodes) (PBool True) = Inr post"
    by simp
  then obtain block_text table' indentation own below others where
    out: "block_to_text L b (PBool True) = Inr (block_text, table', indentation)"
    and own: "own_text level block_text table' indentation = Inr own"
    and below: "below_text L level b kids = Inr below"
    and others: "list_blocks_loop L level nodes table' = Inr others"
    and post: "post = own @ below @ others"
    by (rule loop_ConsE)
  from Cons.prems(1) n have row: "is_table_row b" and leaf: "childless b" by simp_all
  from row out obtain cells where cells: "cells_text L b = Inr cells"
    and shown: "block_text = PStr (row_line cells)" and t: "table' = PBool True"
    and i: "indentation = []"
    by (auto elim: later_row [rotated 2])
  from own shown t i own_text_row [of level cells "[]"] have o: "own = nl @ row_line cells" by simp
  from leaf below have b: "below = []"
    by (auto simp: childless_def below_text_def split: sum.splits)
  from Cons.prems(1) have "\<forall>n \<in> set nodes. is_table_row (content n) \<and> childless (content n)" by simp
  from Cons.IH [OF this] others t obtain rows where
    rows: "list_all2 (\<lambda>n cells. cells_text L (content n) = Inr cells) nodes rows"
    and r: "others = concat (map (\<lambda>cells. nl @ row_line cells) rows)" by blast
  from cells rows n have "list_all2 (\<lambda>n cells. cells_text L (content n) = Inr cells) (n # nodes) (cells # rows)"
    by simp
  moreover from post o b r have "post = concat (map (\<lambda>cells. nl @ row_line cells) (cells # rows))"
    by simp
  ultimately show ?case by blast
qed

text \<open>
  C7. Take a level whose text is \<open>rendered\<close> and its first table row: no block before it
  is a table row. Then \<open>rendered\<close> is the text of the blocks before the row, a newline,
  the row's line, a newline, the separator line with \<open>---\<close> for every cell, the text of
  the blocks under the row, and the text \<open>post\<close> of the blocks after it, rendered with the
  table state set. Every table row after the first, whatever stands between, adds to
  \<open>post\<close> a newline and its line alone, between the text of the blocks before it and the
  text of the blocks after it, both rendered with the table state still set. When only
  childless table rows follow, \<open>post\<close> is their lines, one after the other: the text has
  one separator line, directly below the first row.
\<close>

theorem table_separator_once:
  assumes "\<forall>n \<in> set before. \<not> is_table_row (content n)" and "is_table_row row"
    and "list_blocks_loop L level (before @ Node row kids # later) PNone = Inr rendered"
  shows "\<exists>cells pre below post.
           cells_text L row = Inr cells
           \<and> list_blocks_loop L level before PNone = Inr pre
           \<and> below_text L level row kids = Inr below
           \<and> list_blocks_loop L level later (PBool True) = Inr post
           \<and> rendered = pre @ nl @ row_line cells @ nl @ separator_line cells @ below @ post
           \<and> (\<forall>mid row' kids' rest.
                later = mid @ Node row' kids' # rest \<and> is_table_row row' \<longrightarrow>
                (\<exists>cells' m below' r.
                   cells_text L row' = Inr cells'
                   \<and> list_blocks_loop L level mid (PBool True) = Inr m
                   \<and> below_text L level row' kids' = Inr below'
                   \<and> list_blocks_loop L level rest (PBool True) = Inr r
                   \<and> post = m @ nl @ row_line cells' @ below' @ r))
           \<and> ((\<forall>n \<in> set later. is_table_row (content n) \<and> childless (content n)) \<longrightarrow>
                (\<exists>rows. list_all2 (\<lambda>n cells. cells_text L (content n) = Inr cells) later rows
                   \<and> post = concat (map (\<lambda>cells. nl @ row_line cells) rows)))"
proof -
  from assms(1) have "\<forall>n \<in> set before. \<forall>out t' i.
      block_to_text L (content n) PNone = Inr (out, t', i) \<longrightarrow> t' = PNone"
    by (auto dest: other_block_keeps_table)
  from loop_append [OF this assms(3)] obtain pre tail where
    pre: "list_blocks_loop L level before PNone = Inr pre"
    and tail: "list_blocks_loop L level (Node row kids # later) PNone = Inr tail"
    and rendered: "rendered = pre @ tail" by blast
  from tail obtain block_text table' indentation own below post where
    out: "block_to_text L row PNone = Inr (block_text, table', indentation)"
    and own: "own_text level block_text table' indentation = Inr own"
    and below: "below_text L level row kids = Inr below"
    and post': "list_blocks_loop L level later table' = Inr post"
    and t: "tail = own @ below @ post"
    by (rule loop_ConsE)
  from assms(2) out obtain cells where cells: "cells_text L row = Inr cells"
    and shown: "block_text = PStr (row_line cells @ nl @ separator_line cells)"
    and set: "table' = PBool True" and i: "indentation = []"
    by (auto elim: first_row [rotated 2])
  from own shown set i own_text_row [of level cells "nl @ separator_line cells"]
  have o: "own = nl @ row_line cells @ nl @ separator_line cells" by simp
  from post' set have post: "list_blocks_loop L level later (PBool True) = Inr post" by simp
  have split: "\<exists>cells' m below' r.
         cells_text L row' = Inr cells'
         \<and> list_blocks_loop L level mid (PBool True) = Inr m
         \<and> below_text L level row' kids' = Inr below'
         \<and> list_blocks_loop L level rest (PBool True) = Inr r
         \<and> post = m @ nl @ row_line cells' @ below' @ r"
    if later: "later = mid @ Node row' kids' # rest" and row': "is_table_row row'"
    for mid row' kids' rest
  proof -
    have "\<forall>n \<in> set mid. \<forall>out t' i.
        block_to_text L (content n) (PBool True) = Inr (out, t', i) \<longrightarrow> t' = PBool True"
      by (auto dest: set_table_kept [rotated])
    from loop_append [OF this post [unfolded later]] obtain m tail' where
      m: "list_blocks_loop L level mid (PBool True) = Inr m"
      and tail': "list_blocks_loop L level (Node row' kids' # rest) (PBool True) = Inr tail'"
      and p: "post = m @ tail'" by blast
    from tail' obtain block_text' table'' indentation' own' below' r where
      out': "block_to_text L row' (PBool True) = Inr (block_text', table'', indentation')"
      and own': "own_text level block_text' table'' indentation' = Inr own'"
      and below': "below_text L level row' kids' = Inr below'"
      and r': "list_blocks_loop L level rest table'' = Inr r"
      and t': "tail' = own' @ below' @ r"
      by (rule loop_ConsE)
    from row' out' obtain cells' where cells': "cells_text L row' = Inr cells'"
      and shown': "block_text' = PStr (row_line cells')" and set': "table'' = PBool True"
      and i': "indentation' = []"
      by (auto elim: later_row [rotated 2])
    from own' shown' set' i' own_text_row [of level cells' "[]"]
    have "own' = nl @ row_line cells'" by simp
    with cells' m below' r' set' p t' show ?thesis by auto
  qed
  have rows: "\<exists>rows. list_all2 (\<lambda>n cells. cells_text L (content n) = Inr cells) later rows
                \<and> post = concat (map (\<lambda>cells. nl @ row_line cells) rows)"
    if "\<forall>n \<in> set later. is_table_row (content n) \<and> childless (content n)"
    using rows_only [OF that post] .
  from cells pre below post rendered t o split rows show ?thesis
    by (intro exI [of _ cells] exI [of _ pre] exI [of _ below] exI [of _ post]) auto
qed

lemmas render_defs =
  list_blocks_def block_to_text_def table_row_def table_row_text_def cells_text_def
  row_line_def separator_line_def has_key_def paragraph_block_def convert_data.simps
  convert_rich_text_def

lemma table_row_is_row: "is_table_row (table_row cells)"
  by (simp add: is_table_row_def table_row_def block_keys_def has_key_def)

lemma table_row_childless: "childless (table_row cells)"
  by (simp add: childless_def table_row_def)

lemma table_row_below: "below_text L level (table_row cells) kids = Inr []"
  by (simp add: below_text_def table_row_def)

lemma three_rows_text:
  "list_blocks shanghai three_rows =
     Inr (nl @ ''| a | b |'' @ nl @ ''| --- | --- |'' @ nl @ ''| c | d |'' @ nl @ ''| e | f |'')"
  by (simp add: three_rows_def render_defs)

lemma interrupted_text:
  "list_blocks shanghai interrupted =
     Inr (nl @ ''| a | b |'' @ nl @ ''| --- | --- |'' @ nl @ ''note'' @ nl @ ''| c | d |'')"
  by (simp add: interrupted_def render_defs shanghai_def)

theorem table_separator_once_witness:
  "list_blocks shanghai three_rows =
     Inr (nl @ ''| a | b |'' @ nl @ ''| --- | --- |'' @ nl @ ''| c | d |'' @ nl @ ''| e | f |'')
   \<and> list_blocks_loop shanghai 0
         [Node (table_row [''c'', ''d'']) [], Node (table_row [''e'', ''f'']) []] (PBool True)
       = Inr (nl @ ''| c | d |'' @ nl @ ''| e | f |'')
   \<and> list_blocks shanghai interrupted =
       Inr (nl @ ''| a | b |'' @ nl @ ''| --- | --- |'' @ nl @ ''note'' @ nl @ ''| c | d |'')
   \<and> list_blocks_loop shanghai 0
         [Node (paragraph_block ''p1'' ''note'') [], Node (table_row [''c'', ''d'']) []] (PBool True)
       = Inr (nl @ ''note'' @ nl @ ''| c | d |'')"
proof -
  have row: "is_table_row (table_row [''a'', ''b''])" by (rule table_row_is_row)
  have none: "\<forall>n \<in> set ([] :: node list). \<not> is_table_row (content n)" by simp
  have ab: "cells_text shanghai (table_row [''a'', ''b'']) = Inr [''a'', ''b'']"
    and cd: "cells_text shanghai (table_row [''c'', ''d'']) = Inr [''c'', ''d'']"
    and ef: "cells_text shanghai (table_row [''e'', ''f'']) = Inr [''e'', ''f'']"
    by (simp_all add: cells_text_def table_row_def)
  have three: "list_blocks_loop shanghai 0
      ([] @ Node (table_row [''a'', ''b'']) []
          # [Node (table_row [''c'', ''d'']) [], Node (table_row [''e'', ''f'']) []]) PNone
      = Inr (nl @ ''| a | b |'' @ nl @ ''| --- | --- |'' @ nl @ ''| c | d |'' @ nl @ ''| e | f |'')"
    using three_rows_text by (simp add: list_blocks_def three_rows_def)
  from table_separator_once [OF none row three]
  obtain post rows where
    post: "list_blocks_loop shanghai 0
      [Node (table_row [''c'', ''d'']) [], Node (table_row [''e'', ''f'']) []] (PBool True) = Inr post"
    and rows: "list_all2 (\<lambda>n cells. cells_text shanghai (content n) = Inr cells)
      [Node (table_row [''c'', ''d'']) [], Node (table_row [''e'', ''f'']) []] rows"
    and closed: "post = concat (map (\<lambda>cells. nl @ row_line cells) rows)"
    by (auto simp: table_row_is_row table_row_childless)
  from rows cd ef have "rows = [[''c'', ''d''], [''e'', ''f'']]"
    by (auto simp: list_all2_Cons1)
  with closed have "post = nl @ ''| c | d |'' @ nl @ ''| e | f |''" by (simp add: row_line_def)
  with post have first: "list_blocks_loop shanghai 0
      [Node (table_row [''c'', ''d'']) [], Node (table_row [''e'', ''f'']) []] (PBool True)
      = Inr (nl @ ''| c | d |'' @ nl @ ''| e | f |'')" by (simp only:)
  have broken: "list_blocks_loop shanghai 0
      ([] @ Node (table_row [''a'', ''b'']) []
          # [Node (paragraph_block ''p1'' ''note'') [], Node (table_row [''c'', ''d'']) []]) PNone
      = Inr (nl @ ''| a | b |'' @ nl @ ''| --- | --- |'' @ nl @ ''note'' @ nl @ ''| c | d |'')"
    using interrupted_text by (simp add: list_blocks_def interrupted_def)
  from table_separator_once [OF none row broken]
  obtain cells pre below post' where
    "cells_text shanghai (table_row [''a'', ''b'']) = Inr cells"
    "list_blocks_loop shanghai 0 [] PNone = Inr pre"
    "below_text shanghai 0 (table_row [''a'', ''b'']) [] = Inr below"
    and post': "list_blocks_loop shanghai 0
      [Node (paragraph_block ''p1'' ''note'') [], Node (table_row [''c'', ''d'']) []] (PBool True)
      = Inr post'"
    and whole: "nl @ ''| a | b |'' @ nl @ ''| --- | --- |'' @ nl @ ''note'' @ nl @ ''| c | d |''
      = pre @ nl @ row_line cells @ nl @ separator_line cells @ below @ post'"
    by blast
  with ab have "cells = [''a'', ''b'']" "pre = []" "below = []"
    by (simp_all add: table_row_below)
  with whole have "post' = nl @ ''note'' @ nl @ ''| c | d |''"
    by (simp add: row_line_def separator_line_def nl_def)
  with post' have second: "list_blocks_loop shanghai 0
      [Node (paragraph_block ''p1'' ''note'') [], Node (table_row [''c'', ''d'']) []] (PBool True)
      = Inr (nl @ ''note'' @ nl @ ''| c | d |'')" by (simp only:)
  show ?thesis
    by (rule conjI [OF three_rows_text conjI [OF first conjI [OF interrupted_text second]]])
qed

subsection \<open>Recently modified pages\<close>

lemma last_edited_local:
  assumes "last_edited L page = Some t"
  shows "\<exists>off. aware t = Some (ZoneInfo (local_timezone L), off)"
  using assms
  by (auto simp: last_edited_def astimezone_def Let_def
      split: sum.splits pyval.splits option.splits if_splits)

lemma last_edited_read:
  assumes "last_edited L page = Some t"
  shows "ebind (py_item page ''last_edited_time'') (str_to_datetime L) = Inr (PDateTime t)"
  using assms
  by (auto simp: last_edited_def split: sum.splits pyval.splits option.splits)

lemma read_last_edited:
  assumes "ebind (py_item page ''last_edited_time'') (str_to_datetime L) = Inr (PDateTime t)"
  shows "last_edited L page = Some t"
proof -
  from assms obtain v where v: "py_item page ''last_edited_time'' = Inr v"
    and t: "str_to_datetime L v = Inr (PDateTime t)"
    by (cases "py_item page ''last_edited_time''") auto
  from t obtain s where s: "v = PStr s" by (cases v) auto
  from t s obtain p where "strptime_datetime L s = Some p" "astimezone L p = Inr t"
    by (cases "strptime_datetime L s"; cases "strptime_date L s")
       (auto elim!: ebind.elims)
  with v s show ?thesis by (simp add: last_edited_def)
qed

lemma cutoff_test:
  assumes "last_edited L page = Some t"
  shows "ebind (py_item page ''last_edited_time'') (\<lambda>s.
           ebind (str_to_datetime L s) (\<lambda>t. moment_le t (PDateTime (DateTime cw (Some (zc, co))))))
         = Inr (\<not> newer L (DateTime cw (Some (zc, co))) page)"
proof -
  from last_edited_local [OF assms] obtain off where
    off: "aware t = Some (ZoneInfo (local_timezone L), off)" ..
  from last_edited_read [OF assms] obtain v where v: "py_item page ''last_edited_time'' = Inr v"
    and r: "str_to_datetime L v = Inr (PDateTime t)"
    by (cases "py_item page ''last_edited_time''") auto
  have "moment_le (PDateTime t) (PDateTime (DateTime cw (Some (zc, co))))
      = Inr (\<not> newer L (DateTime cw (Some (zc, co))) page)"
    using off assms
    by (cases zc)
       (auto simp: newer_def newer_reading_def newer_instant_def instant_def utcoffset_def)
  with v r show ?thesis by simp
qed

lemma cutoff_test_False:
  assumes "ebind (py_item page ''last_edited_time'') (\<lambda>s.
           ebind (str_to_datetime L s) (\<lambda>t. moment_le t (PDateTime (DateTime cw (Some (zc, co))))))
         = Inr False"
  shows "newer L (DateTime cw (Some (zc, co))) page"
proof -
  from assms obtain v where v: "py_item page ''last_edited_time'' = Inr v"
    and rest: "ebind (str_to_datetime L v) (\<lambda>t. moment_le t (PDateTime (DateTime cw (Some (zc, co))))) = Inr False"
    by (cases "py_item page ''last_edited_time''") auto
  from rest obtain t where t: "str_to_datetime L v = Inr t"
    and le: "moment_le t (PDateTime (DateTime cw (Some (zc, co)))) = Inr False"
    by (cases "str_to_datetime L v") auto
  from le obtain a where a: "t = PDateTime a" by (cases t) auto
  from v t a have "last_edited L page = Some a" by (intro read_last_edited) simp
  from cutoff_test [OF this, of cw zc co] assms show ?thesis by simp
qed

lemma recent_loop_newer:
  "p \<in> set (fst (recent_loop L (PDateTime (DateTime cw (Some (zc, co)))) pages)) \<Longrightarrow>
     newer L (DateTime cw (Some (zc, co))) p"
proof (induction pages)
  case Nil
  then show ?case by simp
next
  case (Cons page pages)
  let ?test = "ebind (py_item page ''last_edited_time'') (\<lambda>s.
           ebind (str_to_datetime L s) (\<lambda>t. moment_le t (PDateTime (DateTime cw (Some (zc, co))))))"
  show ?case
  proof (cases ?test)
    case (Inl e)
    with Cons.prems show ?thesis by simp
  next
    case (Inr stop)
    show ?thesis
    proof (cases stop)
      case True
      with Inr Cons.prems show ?thesis by simp
    next
      case False
      with Inr have "newer L (DateTime cw (Some (zc, co))) page" by (simp add: cutoff_test_False)
      with Inr False Cons show ?thesis by (auto simp: yield_def)
    qed
  qed
qed

lemma recent_loop_prefix:
  "\<forall>p \<in> set pages. last_edited L p \<noteq> None \<Longrightarrow>
     recent_loop L (PDateTime (DateTime cw (Some (zc, co)))) pages
       = (takeWhile (newer L (DateTime cw (Some (zc, co)))) pages, None)"
proof (induction pages)
  case Nil
  then show ?case by simp
next
  case (Cons page pages)
  then obtain t where t: "last_edited L page = Some t" by auto
  from Cons have rest: "recent_loop L (PDateTime (DateTime cw (Some (zc, co)))) pages
       = (takeWhile (newer L (DateTime cw (Some (zc, co)))) pages, None)" by simp
  show ?case by (auto simp: cutoff_test [OF t] rest yield_def)
qed

lemma descending_takeWhile:
  "descending L pages \<Longrightarrow>
     takeWhile (newer_instant L c) pages = filter (newer_instant L c) pages"
proof (induction pages)
  case Nil
  then show ?case by simp
next
  case (Cons page pages)
  from Cons.prems have tail: "descending L pages" by (simp add: descending_def)
  show ?case
  proof (cases "newer_instant L c page")
    case True
    with Cons.IH [OF tail] show ?thesis by simp
  next
    case False
    have "\<not> newer_instant L c q" if "q \<in> set pages" for q
    proof -
      from Cons.prems that
      have "case (last_edited L page, last_edited L q) of
              (Some t, Some u) \<Rightarrow> instant u \<le> instant t | _ \<Rightarrow> False"
        by (simp add: descending_def)
      then obtain t u where "last_edited L page = Some t" "last_edited L q = Some u"
        "instant u \<le> instant t"
        by (cases "last_edited L page"; cases "last_edited L q") auto
      with False show ?thesis by (simp add: newer_instant_def)
    qed
    then have "filter (newer_instant L c) pages = []" by (simp add: filter_empty_conv)
    with False show ?thesis by simp
  qed
qed

text \<open>
  C9 (as the code has it). With an aware datetime as cutoff, every page
  \<open>list_recent_pages\<close> yields is later than the cutoff in the order the comparison uses.
  When every page of the stream carries a timestamp, the generator yields the longest
  prefix of pages later than the cutoff and ends there without an error. The order is that
  of instants when the cutoff's \<open>tzinfo\<close> is not the local zone object, and then, on a
  stream in descending order of edit time, the pages yielded are all the pages edited
  after the cutoff. It is the order of wall-clock readings when the cutoff carries the
  local zone object.
\<close>

theorem list_recent_pages_prefix:
  fixes cw co :: int and zc :: tzinfo
  defines "cutoff \<equiv> DateTime cw (Some (zc, co))"
  shows "(\<forall>p \<in> set (fst (list_recent_pages L search (PDateTime cutoff) page_size)).
            newer L cutoff p)
       \<and> ((\<forall>p \<in> set (search (search_payload page_size)). last_edited L p \<noteq> None) \<longrightarrow>
            list_recent_pages L search (PDateTime cutoff) page_size
              = (takeWhile (newer L cutoff) (search (search_payload page_size)), None)
            \<and> (zc \<noteq> ZoneInfo (local_timezone L)
                 \<and> descending L (search (search_payload page_size)) \<longrightarrow>
                 fst (list_recent_pages L search (PDateTime cutoff) page_size)
                   = filter (newer_instant L cutoff) (search (search_payload page_size))))
       \<and> (zc \<noteq> ZoneInfo (local_timezone L) \<longrightarrow> newer L cutoff = newer_instant L cutoff)
       \<and> (zc = ZoneInfo (local_timezone L) \<longrightarrow> newer L cutoff = newer_reading L cutoff)"
proof -
  have instants: "newer L cutoff = newer_instant L cutoff" if "zc \<noteq> ZoneInfo (local_timezone L)"
    using that by (simp add: newer_def cutoff_def fun_eq_iff)
  have readings: "newer L cutoff = newer_reading L cutoff" if "zc = ZoneInfo (local_timezone L)"
    using that by (simp add: newer_def cutoff_def fun_eq_iff)
  have yielded: "newer L cutoff p"
    if "p \<in> set (fst (list_recent_pages L search (PDateTime cutoff) page_size))" for p
    using that unfolding list_recent_pages_def cutoff_def by (rule recent_loop_newer)
  have prefix: "list_recent_pages L search (PDateTime cutoff) page_size
      = (takeWhile (newer L cutoff) (search (search_payload page_size)), None)"
    if "\<forall>p \<in> set (search (search_payload page_size)). last_edited L p \<noteq> None"
    using that unfolding list_recent_pages_def cutoff_def by (rule recent_loop_prefix)
  have all: "fst (list_recent_pages L search (PDateTime cutoff) page_size)
      = filter (newer_instant L cutoff) (search (search_payload page_size))"
    if "\<forall>p \<in> set (search (search_payload page_size)). last_edited L p \<noteq> None"
      and "zc \<noteq> ZoneInfo (local_timezone L)"
      and "descending L (search (search_payload page_size))"
    by (simp add: prefix [OF that(1)] instants [OF that(2)] descending_takeWhile [OF that(3)])
  from yielded prefix all instants readings show ?thesis by blast
qed

lemma found_stamps:
  "last_edited shanghai (edited_on ''a'' ''2024-01-03T00:00:00.000Z'')
     = Some (DateTime 63839865600000000 (Some (ZoneInfo ''Asia/Shanghai'', 28800000000)))"
  "last_edited shanghai (edited_on ''b'' ''2024-01-02T00:00:00.000Z'')
     = Some (DateTime 63839779200000000 (Some (ZoneInfo ''Asia/Shanghai'', 28800000000)))"
  "last_edited shanghai (edited_on ''c'' ''2024-01-01T00:00:00.000Z'')
     = Some (DateTime 63839692800000000 (Some (ZoneInfo ''Asia/Shanghai'', 28800000000)))"
  by (simp_all add: last_edited_def edited_on_def library_defs)

theorem list_recent_pages_prefix_witness:
  "descending shanghai (found (search_payload (PInt 100)))
   \<and> list_recent_pages shanghai found
        (PDateTime (DateTime 63839750400000000 (Some (Timezone, 0)))) (PInt 100)
       = ([edited_on ''a'' ''2024-01-03T00:00:00.000Z''], None)"
proof -
  have sorted: "descending shanghai (found (search_payload (PInt 100)))"
    by (simp add: descending_def found_def found_stamps instant_def utcoffset_def)
  have stamped: "\<forall>p \<in> set (found (search_payload (PInt 100))). last_edited shanghai p \<noteq> None"
    by (simp add: found_def found_stamps)
  have other: "Timezone \<noteq> ZoneInfo (local_timezone shanghai)" by simp
  have "filter (newer_instant shanghai (DateTime 63839750400000000 (Some (Timezone, 0))))
          (found (search_payload (PInt 100)))
      = [edited_on ''a'' ''2024-01-03T00:00:00.000Z'']"
    by (simp add: found_def newer_instant_def found_stamps instant_def utcoffset_def)
  with list_recent_pages_prefix [of shanghai found 63839750400000000 Timezone 0 "PInt 100"]
    stamped sorted other
  show ?thesis by (cases "list_recent_pages shanghai found
        (PDateTime (DateTime 63839750400000000 (Some (Timezone, 0)))) (PInt 100)") auto
qed

theorem list_recent_pages_fold_counterexample:
  "last_edited new_york (edited_on ''a'' ''2024-11-03T05:30:00.000Z'')
     = Some (DateTime 63866194200000000 (Some (ZoneInfo ''America/New_York'', - 14400000000)))
   \<and> instant (DateTime 63866194200000000 (Some (ZoneInfo ''America/New_York'', - 14400000000)))
       < instant (DateTime 63866193000000000 (Some (ZoneInfo ''America/New_York'', - 18000000000)))
   \<and> list_recent_pages new_york found_at_fold
        (PDateTime (DateTime 63866193000000000 (Some (ZoneInfo ''America/New_York'', - 18000000000))))
        (PInt 100)
       = ([edited_on ''a'' ''2024-11-03T05:30:00.000Z''], None)"
  by (simp add: list_recent_pages_def found_at_fold_def yield_def last_edited_def edited_on_def
      new_york_def library_defs instant_def)

subsection \<open>Managers\<close>

lemma run_ops_length: "length h \<le> length (run_ops ops h)"
proof (induction ops arbitrary: h)
  case Nil
  then show ?case by simp
next
  case (Cons op ops)
  have "length h \<le> length (run_op op h)"
    by (cases op) (simp_all add: objects_def filter_at_def order_by_at_def)
  also have "\<dots> \<le> length (run_ops ops (run_op op h))" by (rule Cons.IH)
  finally show ?case by simp
qed

lemma run_ops_frame:
  "r < length h \<Longrightarrow> \<forall>op \<in> set ops. target op \<noteq> Some r \<Longrightarrow> run_ops ops h ! r = h ! r"
proof (induction ops arbitrary: h)
  case Nil
  then show ?case by simp
next
  case (Cons op ops)
  have len: "r < length (run_op op h)"
    using Cons.prems(1) by (cases op) (simp_all add: objects_def filter_at_def order_by_at_def)
  have same: "run_op op h ! r = h ! r"
    using Cons.prems by (cases op) (auto simp: objects_def filter_at_def order_by_at_def nth_append)
  from Cons.IH [OF len] Cons.prems(2) same show ?case by simp
qed

text \<open>
  C10 (as the code has it). After any history of accesses and builder calls, an access of
  \<open>objects\<close> allocates a new manager, equal to \<open>Manager_init c\<close>: its filter and its
  order are \<open>None\<close> and its query carries the database only; it stays so unless a builder
  is called on this very manager, so nothing set through another access shows in it. A
  filter set on it is what its query sends, in a chained call and equally later: the
  manager keeps the filter through whatever is done to other managers, so a query through a
  held reference sends it too.
\<close>

theorem objects_fresh_manager:
  fixes h :: "manager list" and before :: "manager_op list" and c :: model
  defines "r \<equiv> length (run_ops before h)"
  defines "h' \<equiv> snd (objects c (run_ops before h))"
  shows "fst (objects c (run_ops before h)) = r \<and> length h \<le> r
       \<and> h' ! r = Manager_init c
       \<and> query_filter (Manager_init c) = PNone \<and> query_order_by (Manager_init c) = PNone
       \<and> query_kwargs (Manager_init c) = [(PStr ''database_id'', PStr (database_id c))]
       \<and> ((\<forall>op \<in> set later. target op \<noteq> Some r) \<longrightarrow> run_ops later h' ! r = Manager_init c)
       \<and> query_kwargs (snd (filter_at r flt h') ! r) =
           [(PStr ''database_id'', PStr (database_id c))]
           @ (if truthy flt then [(PStr ''filter'', flt)] else [])
       \<and> ((\<forall>op \<in> set later. target op \<noteq> Some r) \<longrightarrow>
            run_ops later (snd (filter_at r flt h')) ! r = Manager_filter (Manager_init c) flt)"
proof -
  have fresh: "h' ! r = Manager_init c" by (simp add: objects_def h'_def r_def)
  have len: "r < length h'" by (simp add: objects_def h'_def r_def)
  have frame: "run_ops later h' ! r = Manager_init c"
    if "\<forall>op \<in> set later. target op \<noteq> Some r"
    using run_ops_frame [OF len that] fresh by simp
  have set: "snd (filter_at r flt h') ! r = Manager_filter (Manager_init c) flt"
    using len fresh by (simp add: filter_at_def)
  have chained: "query_kwargs (snd (filter_at r flt h') ! r) =
      [(PStr ''database_id'', PStr (database_id c))] @ (if truthy flt then [(PStr ''filter'', flt)] else [])"
    unfolding set by (simp add: Manager_filter_def Manager_init_def query_kwargs_def)
  have len': "r < length (snd (filter_at r flt h'))" using len by (simp add: filter_at_def)
  have held: "run_ops later (snd (filter_at r flt h')) ! r = Manager_filter (Manager_init c) flt"
    if "\<forall>op \<in> set later. target op \<noteq> Some r"
    using run_ops_frame [OF len' that] set by simp
  have "length h \<le> r" unfolding r_def by (rule run_ops_length)
  moreover have "fst (objects c (run_ops before h)) = r" by (simp add: objects_def r_def)
  moreover have "query_filter (Manager_init c) = PNone" "query_order_by (Manager_init c) = PNone"
    "query_kwargs (Manager_init c) = [(PStr ''database_id'', PStr (database_id c))]"
    by (simp_all add: Manager_init_def query_kwargs_def)
  ultimately show ?thesis using fresh frame chained held by blast
qed

theorem objects_fresh_manager_witness:
  "fst (objects crm (run_ops [Access crm, Filter 0 (PStr ''f'')] [])) = 1
   \<and> query_filter (run_ops [Access crm, Filter 0 (PStr ''f'')] [] ! 0) = PStr ''f''
   \<and> snd (objects crm (run_ops [Access crm, Filter 0 (PStr ''f'')] [])) ! 1 = Manager_init crm
   \<and> run_ops [OrderBy 0 [PStr ''s''], Access crm]
        (snd (objects crm (run_ops [Access crm, Filter 0 (PStr ''f'')] []))) ! 1 = Manager_init crm
   \<and> run_ops [OrderBy 0 [PStr ''s''], Access crm]
        (snd (filter_at 1 (PStr ''g'')
           (snd (objects crm (run_ops [Access crm, Filter 0 (PStr ''f'')] []))))) ! 1
       = Manager_filter (Manager_init crm) (PStr ''g'')"
proof -
  have len: "length (run_ops [Access crm, Filter 0 (PStr ''f'')] []) = 1"
    by (simp add: objects_def filter_at_def)
  have other: "\<forall>op \<in> set [OrderBy 0 [PStr ''s''], Access crm].
      target op \<noteq> Some (length (run_ops [Access crm, Filter 0 (PStr ''f'')] []))"
    unfolding len by simp
  have first: "query_filter (run_ops [Access crm, Filter 0 (PStr ''f'')] [] ! 0) = PStr ''f''"
    by (simp add: objects_def filter_at_def Manager_filter_def Manager_init_def)
  from objects_fresh_manager [where c = crm and before = "[Access crm, Filter 0 (PStr ''f'')]"
      and h = "[]" and later = "[OrderBy 0 [PStr ''s''], Access crm]" and flt = "PStr ''g''"] other
  have "fst (objects crm (run_ops [Access crm, Filter 0 (PStr ''f'')] []))
          = length (run_ops [Access crm, Filter 0 (PStr ''f'')] [])"
    and "snd (objects crm (run_ops [Access crm, Filter 0 (PStr ''f'')] []))
          ! length (run_ops [Access crm, Filter 0 (PStr ''f'')] []) = Manager_init crm"
    and "run_ops [OrderBy 0 [PStr ''s''], Access crm]
          (snd (objects crm (run_ops [Access crm, Filter 0 (PStr ''f'')] [])))
          ! length (run_ops [Access crm, Filter 0 (PStr ''f'')] []) = Manager_init crm"
    and "run_ops [OrderBy 0 [PStr ''s''], Access crm]
          (snd (filter_at (length (run_ops [Access crm, Filter 0 (PStr ''f'')] [])) (PStr ''g'')
             (snd (objects crm (run_ops [Access crm, Filter 0 (PStr ''f'')] [])))))
          ! length (run_ops [Access crm, Filter 0 (PStr ''f'')] [])
         = Manager_filter (Manager_init crm) (PStr ''g'')"
    by blast+
  with first show ?thesis unfolding len by simp
qed

theorem held_manager_counterexample:
  "Manager_query notion shanghai
     (run_ops [Access crm, Filter 0 email_filter, Access crm] [] ! 0) start
   = (Inr [], crm,
      \<lparr>store = (), calls = [DatabasesQuery [(PStr ''database_id'', PStr ''db''),
                                             (PStr ''filter'', email_filter)]]\<rparr>)"
  by (simp add: objects_def filter_at_def Manager_filter_def Manager_init_def Manager_query_def
      query_kwargs_def notion_def start_def crm_def email_filter_def nth_append)

end
